theory Spec2Isabelle
  imports Main "HOL-Library.Word" "HOL-Library.Char_ord" "HOL-Library.List_Lexorder"
    "HOL-Library.Multiset"
begin

section \<open>fontlet: a terminal front-end for figlet fonts\<close>

text \<open>
  A shallow embedding of \<^verbatim>\<open>fontlet.go\<close>. Go strings are byte sequences and are modelled
  as \<^typ>\<open>string\<close>, one \<^typ>\<open>char\<close> per byte. \<^verbatim>\<open>strings.TrimSpace\<close> is written out
  as Go has it, with its decoding of UTF-8 and the white space of Unicode.
  \<^verbatim>\<open>strings.ToLower\<close> is written out for the letters A to Z: no other character has a
  lower-case form among the characters that the program compares its result with.
\<close>

subsection \<open>The functions of package strings that the program calls\<close>

text \<open>\<^verbatim>\<open>strings.Split(s, sep)\<close> for a separator of one byte: always at least one piece.\<close>

fun strings_Split :: "string \<Rightarrow> char \<Rightarrow> string list" where
  "strings_Split [] sep = [[]]"
| "strings_Split (c # cs) sep =
     (if c = sep then [] # strings_Split cs sep
      else (case strings_Split cs sep of
              [] \<Rightarrow> [[c]]
            | l # ls \<Rightarrow> (c # l) # ls))"

text \<open>\<^verbatim>\<open>strings.Join(elems, sep)\<close>.\<close>

fun strings_Join :: "string list \<Rightarrow> string \<Rightarrow> string" where
  "strings_Join [] sep = []"
| "strings_Join [l] sep = l"
| "strings_Join (l # ls) sep = l @ sep @ strings_Join ls sep"

text \<open>
  Package utf8. A byte is read as a number, and a rune is a number too. Where Go masks
  and shifts the bytes of an encoding, the fields are taken by \<open>mod\<close> and put in place
  by multiplication: they do not overlap. \<open>utf8_first\<close> is the table \<^verbatim>\<open>first\<close> for the
  lead bytes of encodings of two to four bytes, with the size and the range accepted
  for the second byte; it is \<^const>\<open>None\<close> for the bytes that start no encoding.
\<close>

definition byte :: "char \<Rightarrow> nat" where
  "byte c = of_char c"

definition RuneSelf :: nat where
  "RuneSelf = 0x80"

definition RuneError :: nat where
  "RuneError = 0xFFFD"

definition utf8_first :: "nat \<Rightarrow> (nat \<times> nat \<times> nat) option" where
  "utf8_first b =
     (if 0xC2 \<le> b \<and> b \<le> 0xDF then Some (2, 0x80, 0xBF)
      else if b = 0xE0 then Some (3, 0xA0, 0xBF)
      else if 0xE1 \<le> b \<and> b \<le> 0xEC then Some (3, 0x80, 0xBF)
      else if b = 0xED then Some (3, 0x80, 0x9F)
      else if 0xEE \<le> b \<and> b \<le> 0xEF then Some (3, 0x80, 0xBF)
      else if b = 0xF0 then Some (4, 0x90, 0xBF)
      else if 0xF1 \<le> b \<and> b \<le> 0xF3 then Some (4, 0x80, 0xBF)
      else if b = 0xF4 then Some (4, 0x80, 0x8F)
      else None)"

definition utf8_DecodeRuneInString :: "string \<Rightarrow> nat \<times> nat" where
  "utf8_DecodeRuneInString s =
     (case s of
        [] \<Rightarrow> (RuneError, 0)
      | c0 # cs \<Rightarrow>
          let s0 = byte c0 in
          if s0 < RuneSelf then (s0, 1)
          else case utf8_first s0 of
            None \<Rightarrow> (RuneError, 1)
          | Some (sz, lo, hi) \<Rightarrow>
              if length s < sz then (RuneError, 1)
              else let s1 = byte (s ! 1) in
              if s1 < lo \<or> hi < s1 then (RuneError, 1)
              else if sz \<le> 2 then (s0 mod 32 * 64 + s1 mod 64, 2)
              else let s2 = byte (s ! 2) in
              if s2 < 0x80 \<or> 0xBF < s2 then (RuneError, 1)
              else if sz \<le> 3 then (s0 mod 16 * 4096 + s1 mod 64 * 64 + s2 mod 64, 3)
              else let s3 = byte (s ! 3) in
              if s3 < 0x80 \<or> 0xBF < s3 then (RuneError, 1)
              else (s0 mod 8 * 262144 + s1 mod 64 * 4096 + s2 mod 64 * 64 + s3 mod 64, 4))"

text \<open>
  \<^verbatim>\<open>utf8.DecodeLastRuneInString\<close>. \<open>lastRuneStart\<close> is its loop
  \<^verbatim>\<open>for start--; start >= lim; start-- { if RuneStart(s[start]) { break } }\<close>.
\<close>

definition utf8_RuneStart :: "nat \<Rightarrow> bool" where
  "utf8_RuneStart b \<longleftrightarrow> \<not> (0x80 \<le> b \<and> b \<le> 0xBF)"

function lastRuneStart :: "string \<Rightarrow> int \<Rightarrow> int \<Rightarrow> int" where
  "lastRuneStart s start lim =
     (if start \<ge> lim
      then (if utf8_RuneStart (byte (s ! nat start)) then start
            else lastRuneStart s (start - 1) lim)
      else start)"
  by pat_completeness auto
termination
  by (relation "measure (\<lambda>(s, start, lim). nat (start - lim + 1))") auto

declare lastRuneStart.simps [simp del]

definition utf8_DecodeLastRuneInString :: "string \<Rightarrow> nat \<times> nat" where
  "utf8_DecodeLastRuneInString s =
     (let n = int (length s) in
      if n = 0 then (RuneError, 0)
      else let r = byte (s ! nat (n - 1)) in
      if r < RuneSelf then (r, 1)
      else let lim = (if n - 4 < 0 then 0 else n - 4);
               start = lastRuneStart s (n - 2) lim;
               start = (if start < 0 then 0 else start);
               (r, wid) = utf8_DecodeRuneInString (drop (nat start) s)
           in if start + int wid \<noteq> n then (RuneError, 1) else (r, wid))"

text \<open>\<^verbatim>\<open>unicode.IsSpace\<close>: the white space of Latin-1, and beyond it that of Unicode.\<close>

definition unicode_IsSpace :: "nat \<Rightarrow> bool" where
  "unicode_IsSpace r \<longleftrightarrow>
     (if r \<le> 0xFF
      then r \<in> {0x09, 0x0A, 0x0B, 0x0C, 0x0D, 0x20, 0x85, 0xA0}
      else r = 0x1680 \<or> (0x2000 \<le> r \<and> r \<le> 0x200A) \<or> r = 0x2028 \<or> r = 0x2029
           \<or> r = 0x202F \<or> r = 0x205F \<or> r = 0x3000)"

text \<open>
  \<^verbatim>\<open>indexFunc\<close> of package strings, the loop \<^verbatim>\<open>for i, r := range s\<close> from the index
  \<open>i\<close> on, and \<^verbatim>\<open>lastIndexFunc\<close>, whose loop variable is the length of the prefix still
  to visit. Both give -1 when no rune is found.
\<close>

function indexFunc :: "string \<Rightarrow> (nat \<Rightarrow> bool) \<Rightarrow> bool \<Rightarrow> nat \<Rightarrow> int" where
  "indexFunc s f truth i =
     (if i < length s
      then (case utf8_DecodeRuneInString (drop i s) of
              (r, wid) \<Rightarrow> if f r = truth then int i else indexFunc s f truth (i + wid))
      else - 1)"
  by pat_completeness auto
termination
proof (relation "measure (\<lambda>(s, f, truth, i). length s - i)")
  show "wf (measure (\<lambda>(s, f, truth, i). length s - i))" by simp
next
  fix s :: string and f :: "nat \<Rightarrow> bool" and truth :: bool and i x r wid
  assume i: "i < length s" and x: "(r, wid) = utf8_DecodeRuneInString (drop i s)"
  from i obtain c cs where d: "drop i s = c # cs" by (cases "drop i s") auto
  have "0 < snd (utf8_DecodeRuneInString (c # cs))"
    by (simp add: utf8_DecodeRuneInString_def Let_def split: option.splits prod.splits)
  with x d have "0 < wid" by (metis snd_conv)
  with i show "((s, f, truth, i + wid), (s, f, truth, i)) \<in> measure (\<lambda>(s, f, truth, i). length s - i)"
    by simp
qed

declare indexFunc.simps [simp del]


function lastIndexFunc :: "string \<Rightarrow> (nat \<Rightarrow> bool) \<Rightarrow> bool \<Rightarrow> int" where
  "lastIndexFunc s f truth =
     (if length s > 0
      then (case utf8_DecodeLastRuneInString s of
              (r, wid) \<Rightarrow>
                let i = length s - wid in
                if f r = truth then int i else lastIndexFunc (take i s) f truth)
      else - 1)"
  by pat_completeness auto
termination
proof (relation "measure (\<lambda>(s, f, truth). length s)")
  show "wf (measure (\<lambda>(s, f, truth). length s))" by simp
next
  fix s :: string and f :: "nat \<Rightarrow> bool" and truth :: bool and x r wid i
  assume s: "0 < length s" and x: "(r, wid) = utf8_DecodeLastRuneInString s"
    and i: "i = length s - wid"
  have le: "lastRuneStart t a l \<le> a" for t a l
  proof (induction t a l rule: lastRuneStart.induct)
    case (1 t a l)
    then show ?case by (subst lastRuneStart.simps) auto
  qed
  have "0 < snd (utf8_DecodeLastRuneInString s)"
    using s le [of s "int (length s) - 2" "if int (length s) - 4 < 0 then 0 else int (length s) - 4"]
    by (auto simp: utf8_DecodeLastRuneInString_def Let_def split: prod.splits if_splits)
  with x have "0 < wid" by (metis snd_conv)
  with s i show "((take i s, f, truth), (s, f, truth)) \<in> measure (\<lambda>(s, f, truth). length s)"
    by simp
qed

declare lastIndexFunc.simps [simp del]

text \<open>\<^verbatim>\<open>strings.TrimLeftFunc\<close>, \<^verbatim>\<open>strings.TrimRightFunc\<close> and \<^verbatim>\<open>strings.TrimFunc\<close>.\<close>

definition strings_TrimLeftFunc :: "string \<Rightarrow> (nat \<Rightarrow> bool) \<Rightarrow> string" where
  "strings_TrimLeftFunc s f =
     (let i = indexFunc s f False 0 in if i = - 1 then [] else drop (nat i) s)"

definition strings_TrimRightFunc :: "string \<Rightarrow> (nat \<Rightarrow> bool) \<Rightarrow> string" where
  "strings_TrimRightFunc s f =
     (let i = lastIndexFunc s f False in
      if i \<ge> 0 \<and> byte (s ! nat i) \<ge> RuneSelf
      then (case utf8_DecodeRuneInString (drop (nat i) s) of
              (r, wid) \<Rightarrow> take (nat (i + int wid)) s)
      else take (nat (i + 1)) s)"

definition strings_TrimFunc :: "string \<Rightarrow> (nat \<Rightarrow> bool) \<Rightarrow> string" where
  "strings_TrimFunc s f = strings_TrimRightFunc (strings_TrimLeftFunc s f) f"

text \<open>
  \<^verbatim>\<open>strings.TrimSpace\<close>. Its first loop runs over the bytes from the front and its
  second loop over those left, from the back (\<open>trimSpaceStop\<close> takes them last byte
  first); each hands over to the functions above at the first byte that is not ASCII.
\<close>

definition asciiSpace :: "nat \<Rightarrow> bool" where
  "asciiSpace c \<longleftrightarrow> c \<in> {0x09, 0x0A, 0x0B, 0x0C, 0x0D, 0x20}"

fun trimSpaceStop :: "string \<Rightarrow> string" where
  "trimSpaceStop [] = []"
| "trimSpaceStop (c # cs) =
     (if byte c \<ge> RuneSelf then strings_TrimRightFunc (rev (c # cs)) unicode_IsSpace
      else if \<not> asciiSpace (byte c) then rev (c # cs)
      else trimSpaceStop cs)"

fun strings_TrimSpace :: "string \<Rightarrow> string" where
  "strings_TrimSpace [] = trimSpaceStop []"
| "strings_TrimSpace (c # cs) =
     (if byte c \<ge> RuneSelf then strings_TrimFunc (c # cs) unicode_IsSpace
      else if \<not> asciiSpace (byte c) then trimSpaceStop (rev (c # cs))
      else strings_TrimSpace cs)"

declare trimSpaceStop.simps [simp del] strings_TrimSpace.simps [simp del]

text \<open>\<^verbatim>\<open>strings.ToLower\<close> on ASCII: the letters A to Z move to a to z.\<close>

definition toLower_char :: "char \<Rightarrow> char" where
  "toLower_char c =
     (if CHR ''A'' \<le> c \<and> c \<le> CHR ''Z'' then char_of (of_char c + (32::nat)) else c)"

definition strings_ToLower :: "string \<Rightarrow> string" where
  "strings_ToLower s = map toLower_char s"

definition strings_HasSuffix :: "string \<Rightarrow> string \<Rightarrow> bool" where
  "strings_HasSuffix s suffix \<longleftrightarrow>
     length suffix \<le> length s \<and> drop (length s - length suffix) s = suffix"

definition strings_TrimSuffix :: "string \<Rightarrow> string \<Rightarrow> string" where
  "strings_TrimSuffix s suffix =
     (if strings_HasSuffix s suffix then take (length s - length suffix) s else s)"

subsection \<open>truncateString\<close>

definition newline :: char where
  "newline = CHR 0x0A"

text \<open>
  The slice expression \<^verbatim>\<open>xs[:n]\<close>. Go panics when \<^verbatim>\<open>n\<close> is negative or beyond the
  capacity; the program slices only below the length, so the capacity is taken to be the
  length. \<^const>\<open>None\<close> is the panic.
\<close>

definition slice_to :: "'a list \<Rightarrow> int \<Rightarrow> 'a list option" where
  "slice_to xs n = (if 0 \<le> n \<and> n \<le> int (length xs) then Some (take (nat n) xs) else None)"

text \<open>
  The loop
  \<^verbatim>\<open>for len(lines) > 0 && strings.TrimSpace(lines[len(lines)-1]) == "" { lines = lines[:len(lines)-1] }\<close>.
\<close>

function trimTrailing :: "string list \<Rightarrow> string list" where
  "trimTrailing lines =
     (if length lines > 0 \<and> strings_TrimSpace (last lines) = []
      then trimTrailing (butlast lines) else lines)"
  by pat_completeness auto
termination
  by (relation "measure length") auto

declare trimTrailing.simps [simp del]

definition truncateString :: "string \<Rightarrow> int \<Rightarrow> string option" where
  "truncateString s maxLines =
     (let lines = strings_Split s newline in
      case (if int (length lines) > maxLines then slice_to lines maxLines else Some lines) of
        None \<Rightarrow> None
      | Some lines' \<Rightarrow> Some (strings_Join (trimTrailing lines') [newline]))"

text \<open>The condition of the loop above, as a predicate on one line.\<close>

definition blank :: "string \<Rightarrow> bool" where
  "blank l \<longleftrightarrow> strings_TrimSpace l = []"

subsection \<open>Errors and formatting\<close>

text \<open>Go's \<^verbatim>\<open>int\<close> on a 64-bit platform.\<close>

type_synonym go_int = "64 word"

text \<open>The verb \<^verbatim>\<open>%d\<close> of package fmt.\<close>

function fmt_nat :: "nat \<Rightarrow> string" where
  "fmt_nat n =
     (if n < 10 then [''0123456789'' ! n]
      else fmt_nat (n div 10) @ [''0123456789'' ! (n mod 10)])"
  by pat_completeness auto
termination
  by (relation "measure id") auto

declare fmt_nat.simps [simp del]

definition fmt_d :: "int \<Rightarrow> string" where
  "fmt_d i = (if i < 0 then CHR ''-'' # fmt_nat (nat (- i)) else fmt_nat (nat i))"

text \<open>
  The error values of the program. \<open>ExternalError\<close> is an error of the operating system
  or of a child process, with its text; the others are built by \<^verbatim>\<open>fmt.Errorf\<close>, the
  last argument being the error wrapped by \<^verbatim>\<open>%w\<close>.
\<close>

datatype error =
    ExternalError string
  | FigletFailed string string go_int error
  | FullOutputFailed error
  | SaveFailed string error
  | NoFontDir
  | WalkFailed string error
  | NoFontsFound string

fun Error :: "error \<Rightarrow> string" where
  "Error (ExternalError t) = t"
| "Error (FigletFailed fontPath text width err) =
     ''figlet failed (path: '' @ fontPath @ '', text: '' @ text @ '', width: ''
       @ fmt_d (sint width) @ ''): '' @ Error err"
| "Error (FullOutputFailed err) = ''failed to run figlet for full output: '' @ Error err"
| "Error (SaveFailed filename err) =
     ''failed to save file '' @ [CHR 0x27] @ filename @ [CHR 0x27] @ '': '' @ Error err"
| "Error NoFontDir = ''could not find figlet font directory''"
| "Error (WalkFailed fontDir err) =
     ''error walking font directory '' @ fontDir @ '': '' @ Error err"
| "Error (NoFontsFound fontDir) =
     ''no .flf font files found in '' @ fontDir @ '' or subdirectories''"

subsection \<open>Running the external tool\<close>

text \<open>
  The operating system is a state \<open>'w\<close> and a function that runs a command line in it:
  \<^verbatim>\<open>exec.Command(name, args...).Output()\<close> gives the standard output and an error, and
  leaves a new state. \<open>invocations\<close> is a log of every command line run so far, oldest
  first; the program does not read it.
\<close>

type_synonym 'w runner = "string list \<Rightarrow> 'w \<Rightarrow> (string \<times> error option) \<times> 'w"

record 'w system =
  world :: 'w
  invocations :: "string list list"

definition exec_Output ::
  "'w runner \<Rightarrow> string \<Rightarrow> string list \<Rightarrow> 'w system \<Rightarrow> (string \<times> error option) \<times> 'w system" where
  "exec_Output run name args s =
     (case run (name # args) (world s) of
        (r, w') \<Rightarrow> (r, s\<lparr>world := w', invocations := invocations s @ [name # args]\<rparr>))"

definition runFiglet ::
  "'w runner \<Rightarrow> string \<Rightarrow> string \<Rightarrow> string \<Rightarrow> go_int \<Rightarrow> 'w system
     \<Rightarrow> (string \<times> error option) \<times> 'w system" where
  "runFiglet run figletCmdPath fontPath text width s =
     (case exec_Output run figletCmdPath
              [''-f'', fontPath, ''-w'', fmt_d (sint width), text] s of
        ((output, None), s1) \<Rightarrow> ((output, None), s1)
      | ((output, Some err), s1) \<Rightarrow>
          (case exec_Output run figletCmdPath [''-f'', fontPath, text] s1 of
             ((output', None), s2) \<Rightarrow> ((output', None), s2)
           | ((output', Some err'), s2) \<Rightarrow>
               (([], Some (FigletFailed fontPath text width err')), s2)))"

subsection \<open>Fonts\<close>

record fontMetadata =
  Name :: string
  Path :: string
  PreviewRender :: string

definition previewLines :: int where
  "previewLines = 11"

subsection \<open>generatePreviewsCmd\<close>

text \<open>
  The width computed at the head of the command: \<^verbatim>\<open>m.termWidth - 20\<close>, at least 20.
  The subtraction wraps as Go's does and the comparison is signed.
\<close>

definition previewRenderWidth :: "go_int \<Rightarrow> go_int" where
  "previewRenderWidth termWidth =
     (let w = termWidth - 20 in if w <s 20 then 20 else w)"

text \<open>
  The loop \<^verbatim>\<open>for i, font := range m.fonts\<close>, writing \<^verbatim>\<open>fontsWithPreviews[i]\<close>. The index
  stays below the length of the slice, which was made with the length of \<^verbatim>\<open>m.fonts\<close>.
  \<^const>\<open>None\<close> is a panic (of \<^const>\<open>truncateString\<close>).
\<close>

fun previewsLoop ::
  "'w runner \<Rightarrow> string \<Rightarrow> string \<Rightarrow> go_int \<Rightarrow> nat \<Rightarrow> fontMetadata list \<Rightarrow> fontMetadata list
     \<Rightarrow> 'w system \<Rightarrow> fontMetadata list option \<times> 'w system" where
  "previewsLoop run figletCmdPath inputText width i [] fontsWithPreviews s =
     (Some fontsWithPreviews, s)"
| "previewsLoop run figletCmdPath inputText width i (font # rest) fontsWithPreviews s =
     (case runFiglet run figletCmdPath (Path font) inputText width s of
        ((output, Some err), s1) \<Rightarrow>
          previewsLoop run figletCmdPath inputText width (Suc i) rest
            (fontsWithPreviews[i := font\<lparr>PreviewRender := ''Error rendering: '' @ Error err\<rparr>]) s1
      | ((output, None), s1) \<Rightarrow>
          (case truncateString output previewLines of
             None \<Rightarrow> (None, s1)
           | Some t \<Rightarrow>
               previewsLoop run figletCmdPath inputText width (Suc i) rest
                 (fontsWithPreviews[i := font\<lparr>PreviewRender := t\<rparr>]) s1))"

text \<open>The zero value of \<^verbatim>\<open>fontMetadata\<close>, which \<^verbatim>\<open>make\<close> fills the slice with.\<close>

definition zeroFont :: fontMetadata where
  "zeroFont = \<lparr>Name = [], Path = [], PreviewRender = []\<rparr>"

subsection \<open>findFigletFonts\<close>

definition isPathSeparator :: "char \<Rightarrow> bool" where
  "isPathSeparator c \<longleftrightarrow> c = CHR ''/''"

text \<open>\<^verbatim>\<open>filepath.Base\<close> on Unix.\<close>

definition filepath_Base :: "string \<Rightarrow> string" where
  "filepath_Base path =
     (if path = [] then ''.''
      else let stripped = rev (dropWhile isPathSeparator (rev path));
               elem = rev (takeWhile (\<lambda>c. \<not> isPathSeparator c) (rev stripped))
           in if elem = [] then ''/'' else elem)"

text \<open>
  \<^verbatim>\<open>filepath.Ext\<close>: the loop runs from the last byte towards the first and stops at a
  separator; \<open>extScan\<close> takes the bytes still to visit, last one first, and the bytes
  already passed.
\<close>

fun extScan :: "string \<Rightarrow> string \<Rightarrow> string" where
  "extScan [] passed = []"
| "extScan (c # cs) passed =
     (if isPathSeparator c then []
      else if c = CHR ''.'' then c # passed
      else extScan cs (c # passed))"

definition filepath_Ext :: "string \<Rightarrow> string" where
  "filepath_Ext path = extScan (rev path) []"

text \<open>
  One call of the function given to \<^verbatim>\<open>filepath.WalkDir\<close>: the path, what the directory
  entry answers to \<^verbatim>\<open>Name()\<close> and \<^verbatim>\<open>IsDir()\<close>, and the error handed in.
\<close>

record visit =
  v_path :: string
  v_name :: string
  v_isDir :: bool
  v_err :: "error option"

definition walkFn :: "string list \<Rightarrow> visit \<Rightarrow> string list \<times> error option" where
  "walkFn fontPaths v =
     (case v_err v of
        Some err \<Rightarrow> (fontPaths, Some err)
      | None \<Rightarrow>
          if \<not> v_isDir v \<and> strings_HasSuffix (strings_ToLower (v_name v)) ''.flf''
          then (fontPaths @ [v_path v], None)
          else (fontPaths, None))"

text \<open>The walk, as the list of calls it makes; it stops at the first error returned.\<close>

fun filepath_WalkDir :: "visit list \<Rightarrow> string list \<Rightarrow> string list \<times> error option" where
  "filepath_WalkDir [] fontPaths = (fontPaths, None)"
| "filepath_WalkDir (v # vs) fontPaths =
     (case walkFn fontPaths v of
        (fontPaths', Some err) \<Rightarrow> (fontPaths', Some err)
      | (fontPaths', None) \<Rightarrow> filepath_WalkDir vs fontPaths')"

text \<open>The loop \<^verbatim>\<open>for _, p := range fontPaths\<close>.\<close>

fun fontsOfPaths :: "string list \<Rightarrow> fontMetadata list \<Rightarrow> fontMetadata list" where
  "fontsOfPaths [] fonts = fonts"
| "fontsOfPaths (p # ps) fonts =
     (let nameWithExt = filepath_Base p;
          name = strings_TrimSuffix nameWithExt (filepath_Ext nameWithExt)
      in fontsOfPaths ps (fonts @ [\<lparr>Name = name, Path = p, PreviewRender = []\<rparr>]))"

text \<open>
  \<^verbatim>\<open>sort.Slice\<close> is not stable, and Go promises only that its result is a rearrangement
  of the slice in which no element is less than an earlier one. The sorting function is
  therefore a parameter \<open>srt\<close> of \<open>findFigletFonts\<close>, and this is what is known of it,
  for the comparison \<^verbatim>\<open>fonts[i].Name < fonts[j].Name\<close> (strings compare byte by byte).
\<close>

definition sort_Slice_by_Name :: "(fontMetadata list \<Rightarrow> fontMetadata list) \<Rightarrow> bool" where
  "sort_Slice_by_Name srt \<longleftrightarrow>
     (\<forall>xs. mset (srt xs) = mset xs \<and> sorted_wrt (\<lambda>a b. \<not> Name b < Name a) (srt xs))"

text \<open>
  \<open>fontDir\<close> is the directory chosen by the first part of the function (the answer of
  \<^verbatim>\<open>figlet -I 2\<close> or one of the usual directories; empty when there is none), and
  \<open>visits\<close> the walk of that directory. The two results are Go's: a list, \<^verbatim>\<open>nil\<close> with
  an error, and the error.
\<close>

definition findFigletFonts ::
  "(fontMetadata list \<Rightarrow> fontMetadata list) \<Rightarrow> string \<Rightarrow> visit list
     \<Rightarrow> fontMetadata list \<times> error option" where
  "findFigletFonts srt fontDir visits =
     (if fontDir = [] then ([], Some NoFontDir)
      else case filepath_WalkDir visits [] of
        (fontPaths, Some err) \<Rightarrow> ([], Some (WalkFailed fontDir err))
      | (fontPaths, None) \<Rightarrow>
          if length fontPaths = 0 then ([], Some (NoFontsFound fontDir))
          else (srt (fontsOfPaths fontPaths []), None))"

subsection \<open>Keys and messages\<close>

text \<open>
  A key press of bubbletea: its type, the text typed (for \<open>KeyRunes\<close>) and the two flags.
  Of the control keys only those below are listed; each of the others has, like them, a
  fixed name that no binding of the program mentions.
\<close>

datatype KeyType =
    KeyRunes | KeyEnter | KeyEsc | KeyCtrlC | KeyTab | KeyBackspace | KeySpace
  | KeyUp | KeyDown | KeyLeft | KeyRight | KeyPgUp | KeyPgDown | KeyHome | KeyEnd | KeyDelete

record Key =
  Type :: KeyType
  Runes :: string
  Alt :: bool
  Paste :: bool

fun keyNames :: "KeyType \<Rightarrow> string" where
  "keyNames KeyRunes = ''runes''"
| "keyNames KeyEnter = ''enter''"
| "keyNames KeyEsc = ''esc''"
| "keyNames KeyCtrlC = ''ctrl+c''"
| "keyNames KeyTab = ''tab''"
| "keyNames KeyBackspace = ''backspace''"
| "keyNames KeySpace = '' ''"
| "keyNames KeyUp = ''up''"
| "keyNames KeyDown = ''down''"
| "keyNames KeyLeft = ''left''"
| "keyNames KeyRight = ''right''"
| "keyNames KeyPgUp = ''pgup''"
| "keyNames KeyPgDown = ''pgdown''"
| "keyNames KeyHome = ''home''"
| "keyNames KeyEnd = ''end''"
| "keyNames KeyDelete = ''delete''"

text \<open>\<^verbatim>\<open>Key.String()\<close>, which \<^verbatim>\<open>key.Matches\<close> compares with the keys of a binding.\<close>

definition Key_String :: "Key \<Rightarrow> string" where
  "Key_String k =
     (if Alt k then ''alt+'' else []) @
     (if Type k = KeyRunes
      then (if Paste k then ''['' else []) @ Runes k @ (if Paste k then '']'' else [])
      else keyNames (Type k))"

definition key_Matches :: "Key \<Rightarrow> string list \<Rightarrow> bool" where
  "key_Matches k keys \<longleftrightarrow> Key_String k \<in> set keys"

datatype msg =
    WindowSizeMsg go_int go_int
  | spinner_TickMsg
  | initialResourcesLoadedMsg "fontMetadata list"
  | previewsGeneratedMsg "fontMetadata list"
  | fullFigletRenderedMsg string
  | fileSavedMsg string
  | errorMsg error
  | statusTimeoutMsg
  | KeyMsg Key
  | OtherMsg

subsection \<open>The model\<close>

datatype appState =
    stateInitialLoading
  | stateInputText
  | stateLoadingPreviews
  | stateSelectFontWithPreview
  | stateGeneratingFullOutput
  | stateOutputChoice
  | stateSaveFileNameInput
  | stateDisplayFiglet
  | stateShowStatusMessage
  | stateError

text \<open>
  The four widgets of the bubbles library are kept abstract: \<open>'ti\<close> is
  \<^verbatim>\<open>textinput.Model\<close>, \<open>'fl\<close> is \<^verbatim>\<open>list.Model\<close>, \<open>'vp\<close> is \<^verbatim>\<open>viewport.Model\<close> and
  \<open>'sp\<close> is \<^verbatim>\<open>spinner.Model\<close>.
\<close>

record ('ti, 'fl, 'vp, 'sp) model =
  state :: appState
  textInput :: 'ti
  fontList :: 'fl
  figletViewport :: 'vp
  spinner :: 'sp
  fonts :: "fontMetadata list"
  fullFigletOutput :: string
  inputText :: string
  selectedFontMeta :: fontMetadata
  termWidth :: go_int
  termHeight :: go_int
  errorMessage :: string
  statusMessage :: string
  figletCmdPath :: string

text \<open>
  What the program calls in bubbles and lipgloss. \<open>list_New\<close> is \<^verbatim>\<open>list.New\<close> followed
  by the title, the styles and the two settings of the program; \<open>list_Items_nil\<close> is
  \<^verbatim>\<open>Items() == nil\<close>; \<open>list_SelectedItem\<close> is \<^const>\<open>None\<close> when the type assertion on
  \<^verbatim>\<open>SelectedItem()\<close> fails. \<open>headerHeight\<close> and \<open>footerHeight\<close> are \<^verbatim>\<open>lipgloss.Height\<close>
  of \<^verbatim>\<open>headerView()\<close> and of \<^verbatim>\<open>footerView()\<close>, which reads the state and the spinner.
  The commands the widgets return are opaque.
\<close>

record ('ti, 'fl, 'vp, 'sp) bubbles =
  textinput_Value :: "'ti \<Rightarrow> string"
  textinput_SetValue :: "string \<Rightarrow> 'ti \<Rightarrow> 'ti"
  textinput_Focus :: "'ti \<Rightarrow> 'ti"
  textinput_Blur :: "'ti \<Rightarrow> 'ti"
  textinput_set_Placeholder :: "string \<Rightarrow> 'ti \<Rightarrow> 'ti"
  textinput_set_Width :: "go_int \<Rightarrow> 'ti \<Rightarrow> 'ti"
  textinput_Prompt_Width :: "'ti \<Rightarrow> go_int"
  textinput_Update :: "Key \<Rightarrow> 'ti \<Rightarrow> 'ti"
  list_New :: "fontMetadata list \<Rightarrow> go_int \<Rightarrow> go_int \<Rightarrow> 'fl"
  list_Items_nil :: "'fl \<Rightarrow> bool"
  list_SetSize :: "go_int \<Rightarrow> go_int \<Rightarrow> 'fl \<Rightarrow> 'fl"
  list_SelectedItem :: "'fl \<Rightarrow> fontMetadata option"
  list_Update :: "Key \<Rightarrow> 'fl \<Rightarrow> 'fl"
  viewport_New :: "go_int \<Rightarrow> go_int \<Rightarrow> 'vp"
  viewport_SetContent :: "string \<Rightarrow> 'vp \<Rightarrow> 'vp"
  viewport_GotoTop :: "'vp \<Rightarrow> 'vp"
  viewport_set_Width :: "go_int \<Rightarrow> 'vp \<Rightarrow> 'vp"
  viewport_set_Height :: "go_int \<Rightarrow> 'vp \<Rightarrow> 'vp"
  viewport_Update :: "Key \<Rightarrow> 'vp \<Rightarrow> 'vp"
  spinner_Update :: "'sp \<Rightarrow> 'sp"
  headerHeight :: go_int
  footerHeight :: "appState \<Rightarrow> 'sp \<Rightarrow> go_int"
  successStyle_Render :: "string \<Rightarrow> string"

text \<open>
  \<^verbatim>\<open>docStyle\<close> has margins 1 (top and bottom) and 2 (left and right): its horizontal
  frame size is 4.
\<close>

definition docStyle_GetHorizontalFrameSize :: go_int where
  "docStyle_GetHorizontalFrameSize = 4"

text \<open>
  Commands. A closure made by a method of the model holds the copy of the model the
  method was called on. \<open>CmdWidget\<close> is a command returned by a widget, \<open>CmdNil\<close> is
  \<^verbatim>\<open>nil\<close>, and \<open>CmdTick d msg\<close> is \<^verbatim>\<open>tea.Tick\<close> of \<open>d\<close> nanoseconds delivering \<open>msg\<close>.
\<close>

datatype 'm cmd =
    CmdQuit
  | CmdNil
  | CmdBatch "'m cmd list"
  | CmdSpinnerTick
  | CmdWidget
  | CmdLoadInitialFonts
  | CmdGeneratePreviews 'm
  | CmdRenderFullFiglet 'm string string
  | CmdSaveToFile string string
  | CmdTick int msg

definition time_Second :: int where
  "time_Second = 1000000000"

subsection \<open>The commands\<close>

definition loadInitialFontsCmd ::
  "(fontMetadata list \<Rightarrow> fontMetadata list) \<Rightarrow> string \<Rightarrow> visit list \<Rightarrow> msg" where
  "loadInitialFontsCmd srt fontDir visits =
     (case findFigletFonts srt fontDir visits of
        (fs, Some err) \<Rightarrow> errorMsg err
      | (fs, None) \<Rightarrow> initialResourcesLoadedMsg fs)"

definition generatePreviewsCmd ::
  "'w runner \<Rightarrow> ('ti, 'fl, 'vp, 'sp) model \<Rightarrow> 'w system \<Rightarrow> msg option \<times> 'w system" where
  "generatePreviewsCmd run m s =
     (case previewsLoop run (figletCmdPath m) (inputText m) (previewRenderWidth (termWidth m))
             0 (fonts m) (replicate (length (fonts m)) zeroFont) s of
        (None, s') \<Rightarrow> (None, s')
      | (Some fontsWithPreviews, s') \<Rightarrow> (Some (previewsGeneratedMsg fontsWithPreviews), s'))"

definition renderFullFigletCmd ::
  "'w runner \<Rightarrow> ('ti, 'fl, 'vp, 'sp) model \<Rightarrow> string \<Rightarrow> string \<Rightarrow> 'w system \<Rightarrow> msg \<times> 'w system" where
  "renderFullFigletCmd run m fontPath text s =
     (let w = termWidth m - docStyle_GetHorizontalFrameSize - 4;
          renderWidth = (if w <s 20 then 20 else w)
      in case runFiglet run (figletCmdPath m) fontPath text renderWidth s of
           ((output, Some err), s') \<Rightarrow> (errorMsg (FullOutputFailed err), s')
         | ((output, None), s') \<Rightarrow> (fullFigletRenderedMsg output, s'))"

text \<open>\<open>writeFile\<close> is \<^verbatim>\<open>os.WriteFile\<close> with the mode of the program.\<close>

definition saveToFileCmd ::
  "(string \<Rightarrow> string \<Rightarrow> 'w \<Rightarrow> error option \<times> 'w) \<Rightarrow> string \<Rightarrow> string \<Rightarrow> 'w \<Rightarrow> msg \<times> 'w" where
  "saveToFileCmd writeFile filename content w =
     (case writeFile filename content w of
        (Some err, w') \<Rightarrow> (errorMsg (SaveFailed filename err), w')
      | (None, w') \<Rightarrow> (fileSavedMsg filename, w'))"

subsection \<open>Update\<close>

text \<open>
  \<^verbatim>\<open>m.termHeight - lipgloss.Height(m.headerView()) - lipgloss.Height(m.footerView()) - 2\<close>.
\<close>

definition listHeight ::
  "('ti, 'fl, 'vp, 'sp) bubbles \<Rightarrow> ('ti, 'fl, 'vp, 'sp) model \<Rightarrow> go_int" where
  "listHeight bub m =
     termHeight m - headerHeight bub - footerHeight bub (state m) (spinner m) - 2"

text \<open>The case \<^verbatim>\<open>tea.KeyMsg\<close>.\<close>

definition updateKey ::
  "('ti, 'fl, 'vp, 'sp) bubbles \<Rightarrow> ('ti, 'fl, 'vp, 'sp) model \<Rightarrow> Key
     \<Rightarrow> ('ti, 'fl, 'vp, 'sp) model \<times> ('ti, 'fl, 'vp, 'sp) model cmd" where
  "updateKey bub m k =
     (if key_Matches k [''ctrl+c''] then (m, CmdQuit)
      else case state m of
        stateInputText \<Rightarrow>
          if Type k = KeyEnter then
            (let m1 = m\<lparr>inputText := strings_TrimSpace (textinput_Value bub (textInput m))\<rparr>
             in if inputText m1 \<noteq> [] then
                  (let m2 = m1\<lparr>state := stateLoadingPreviews\<rparr>;
                       m3 = m2\<lparr>textInput := textinput_Blur bub (textInput m2)\<rparr>
                   in (m3, CmdBatch [CmdSpinnerTick, CmdGeneratePreviews m3]))
                else (m1, CmdBatch []))
          else (m\<lparr>textInput := textinput_Update bub k (textInput m)\<rparr>, CmdBatch [CmdWidget])
      | stateSelectFontWithPreview \<Rightarrow>
          if key_Matches k [''esc''] then
            (let m1 = m\<lparr>state := stateInputText\<rparr>;
                 m2 = m1\<lparr>textInput := textinput_SetValue bub (inputText m1) (textInput m1)\<rparr>;
                 m3 = m2\<lparr>textInput := textinput_Focus bub (textInput m2)\<rparr>
             in (m3, CmdNil))
          else
            (case (if Type k = KeyEnter then
                     (case list_SelectedItem bub (fontList m) of
                        Some selected \<Rightarrow>
                          (let m1 = m\<lparr>selectedFontMeta := selected\<rparr>;
                               m2 = m1\<lparr>state := stateGeneratingFullOutput\<rparr>
                           in (m2, [CmdSpinnerTick,
                                    CmdRenderFullFiglet m2 (Path (selectedFontMeta m2)) (inputText m2)]))
                      | None \<Rightarrow> (m, []))
                   else (m, [])) of
               (m', cmds) \<Rightarrow>
                 (m'\<lparr>fontList := list_Update bub k (fontList m')\<rparr>, CmdBatch (cmds @ [CmdWidget])))
      | stateOutputChoice \<Rightarrow>
          (let choice = strings_ToLower (Key_String k) in
           if choice = ''t'' then
             (let vp = viewport_New bub (termWidth m - docStyle_GetHorizontalFrameSize)
                         (listHeight bub m);
                  m1 = m\<lparr>figletViewport :=
                          viewport_GotoTop bub (viewport_SetContent bub (fullFigletOutput m) vp)\<rparr>
              in (m1\<lparr>state := stateDisplayFiglet, statusMessage := []\<rparr>, CmdBatch []))
           else if choice = ''f'' then
             (let ti = textinput_Focus bub (textinput_SetValue bub []
                         (textinput_set_Placeholder bub ''Enter filename (e.g., output.txt)''
                            (textInput m)))
              in (m\<lparr>textInput := ti, state := stateSaveFileNameInput, statusMessage := []\<rparr>,
                  CmdBatch []))
           else if choice = ''esc'' then
             (m\<lparr>state := stateSelectFontWithPreview, statusMessage := []\<rparr>, CmdBatch [])
           else (m, CmdBatch []))
      | stateSaveFileNameInput \<Rightarrow>
          if Type k = KeyEnter then
            (let filename = strings_TrimSpace (textinput_Value bub (textInput m))
             in if filename \<noteq> [] then
                  (m\<lparr>textInput := textinput_Blur bub (textInput m)\<rparr>,
                   CmdBatch [CmdSaveToFile filename (fullFigletOutput m)])
                else (m, CmdBatch []))
          else if Type k = KeyEsc then
            (m\<lparr>state := stateOutputChoice,
               statusMessage := ''Output to (t)erminal or save to (f)ile?'',
               textInput := textinput_Blur bub (textInput m)\<rparr>, CmdBatch [])
          else (m\<lparr>textInput := textinput_Update bub k (textInput m)\<rparr>, CmdBatch [CmdWidget])
      | stateDisplayFiglet \<Rightarrow>
          (let m1 = (if key_Matches k [''esc'', ''q'']
                     then m\<lparr>state := stateSelectFontWithPreview\<rparr> else m)
           in (m1\<lparr>figletViewport := viewport_Update bub k (figletViewport m1)\<rparr>,
               CmdBatch [CmdWidget]))
      | stateShowStatusMessage \<Rightarrow>
          if key_Matches k [''enter'', ''esc''] then
            (m\<lparr>statusMessage := [], state := stateSelectFontWithPreview\<rparr>, CmdBatch [])
          else (m, CmdBatch [])
      | stateError \<Rightarrow>
          if key_Matches k [''q'', ''esc'', ''enter''] then (m, CmdQuit)
          else (m, CmdBatch [])
      | _ \<Rightarrow> (m, CmdBatch []))"

fun Update ::
  "('ti, 'fl, 'vp, 'sp) bubbles \<Rightarrow> ('ti, 'fl, 'vp, 'sp) model \<Rightarrow> msg
     \<Rightarrow> ('ti, 'fl, 'vp, 'sp) model \<times> ('ti, 'fl, 'vp, 'sp) model cmd" where
  "Update bub m (WindowSizeMsg Width Height) =
     (let m1 = m\<lparr>termWidth := Width, termHeight := Height\<rparr>;
          h = docStyle_GetHorizontalFrameSize;
          m2 = m1\<lparr>textInput :=
                 textinput_set_Width bub
                   (Width - h - textinput_Prompt_Width bub (textInput m1) - 1) (textInput m1)\<rparr>;
          lh = listHeight bub m2;
          m3 = (if \<not> list_Items_nil bub (fontList m2)
                then m2\<lparr>fontList := list_SetSize bub (Width - h) lh (fontList m2)\<rparr> else m2);
          m4 = m3\<lparr>figletViewport :=
                 viewport_set_Height bub lh
                   (viewport_set_Width bub (Width - h) (figletViewport m3))\<rparr>
      in (m4, CmdBatch []))"
| "Update bub m spinner_TickMsg =
     (if state m = stateInitialLoading \<or> state m = stateLoadingPreviews
         \<or> state m = stateGeneratingFullOutput
      then (m\<lparr>spinner := spinner_Update bub (spinner m)\<rparr>, CmdBatch [CmdWidget])
      else (m, CmdBatch []))"
| "Update bub m (initialResourcesLoadedMsg fs) =
     (let m1 = m\<lparr>fonts := fs\<rparr>;
          m2 = m1\<lparr>state := stateInputText\<rparr>
      in (m2\<lparr>textInput := textinput_Focus bub (textInput m2)\<rparr>, CmdBatch []))"
| "Update bub m (previewsGeneratedMsg fontsWithPreviews) =
     (let m1 = m\<lparr>fonts := fontsWithPreviews\<rparr>;
          newList = list_New bub (fonts m1) (termWidth m1 - docStyle_GetHorizontalFrameSize)
                      (listHeight bub m1);
          m2 = m1\<lparr>fontList := newList\<rparr>
      in (m2\<lparr>state := stateSelectFontWithPreview\<rparr>, CmdBatch []))"
| "Update bub m (fullFigletRenderedMsg output) =
     (m\<lparr>fullFigletOutput := output, state := stateOutputChoice,
        statusMessage := ''Output to (t)erminal or save to (f)ile?''\<rparr>, CmdBatch [])"
| "Update bub m (fileSavedMsg path) =
     (m\<lparr>statusMessage := successStyle_Render bub (''Saved to '' @ path @ ''!''),
        state := stateShowStatusMessage\<rparr>,
      CmdBatch [CmdTick (time_Second * 2) statusTimeoutMsg])"
| "Update bub m statusTimeoutMsg =
     (m\<lparr>statusMessage := [], state := stateSelectFontWithPreview\<rparr>, CmdBatch [])"
| "Update bub m (errorMsg err) =
     (m\<lparr>errorMessage := Error err, state := stateError\<rparr>, CmdNil)"
| "Update bub m (KeyMsg k) = updateKey bub m k"
| "Update bub m OtherMsg = (m, CmdBatch [])"

text \<open>\<^verbatim>\<open>Init\<close>.\<close>

definition Init :: "('ti, 'fl, 'vp, 'sp) model \<Rightarrow> ('ti, 'fl, 'vp, 'sp) model cmd" where
  "Init m = (if state m = stateError then CmdQuit
             else CmdBatch [CmdSpinnerTick, CmdLoadInitialFonts])"

subsection \<open>Notions used in the statements\<close>

text \<open>What \<open>runFiglet\<close> answers for each font of a list in turn, and the state left.\<close>

fun renderings ::
  "'w runner \<Rightarrow> string \<Rightarrow> string \<Rightarrow> go_int \<Rightarrow> fontMetadata list \<Rightarrow> 'w system
     \<Rightarrow> (string \<times> error option) list \<times> 'w system" where
  "renderings run cmdPath text width [] s = ([], s)"
| "renderings run cmdPath text width (font # rest) s =
     (case runFiglet run cmdPath (Path font) text width s of
        (r, s1) \<Rightarrow>
          (case renderings run cmdPath text width rest s1 of
             (rs, s2) \<Rightarrow> (r # rs, s2)))"

text \<open>
  The runes of a string, as \<^verbatim>\<open>range\<close> yields them, and the strings made of white space
  only: every rune is white space for \<^verbatim>\<open>unicode.IsSpace\<close>. The empty string is one.
\<close>

function runes :: "string \<Rightarrow> nat list" where
  "runes s =
     (if s = [] then []
      else case utf8_DecodeRuneInString s of (r, wid) \<Rightarrow> r # runes (drop wid s))"
  by pat_completeness auto
termination
proof (relation "measure length")
  show "wf (measure length)" by simp
next
  fix s :: string and x r wid
  assume s: "s \<noteq> []" and x: "(r, wid) = utf8_DecodeRuneInString s"
  from s obtain c cs where d: "s = c # cs" by (cases s) auto
  have "0 < snd (utf8_DecodeRuneInString (c # cs))"
    by (simp add: utf8_DecodeRuneInString_def Let_def split: option.splits prod.splits)
  with x d have "0 < wid" by (metis snd_conv)
  with s show "(drop wid s, s) \<in> measure length" by simp
qed

declare runes.simps [simp del]

definition whiteSpaceOnly :: "string \<Rightarrow> bool" where
  "whiteSpaceOnly s \<longleftrightarrow> list_all unicode_IsSpace (runes s)"

text \<open>
  Truncation in the words of the specification: split the text on line boundaries, keep
  at most the first \<open>maxLines\<close> lines, drop from these the trailing lines that are empty
  or white space only, and join the rest again.
\<close>

definition truncated :: "string \<Rightarrow> nat \<Rightarrow> string" where
  "truncated s maxLines =
     strings_Join
       (rev (dropWhile whiteSpaceOnly (rev (take maxLines (strings_Split s newline)))))
       [newline]"

text \<open>
  The entry that the loop of \<open>generatePreviewsCmd\<close> writes for a font, given what
  \<open>runFiglet\<close> answered for it: the name and the path of the font, and as preview the
  answer truncated to 11 lines, or the error after \<^verbatim>\<open>Error rendering: \<close>.
\<close>

definition previewEntry :: "string \<times> error option \<Rightarrow> fontMetadata \<Rightarrow> fontMetadata \<Rightarrow> bool" where
  "previewEntry r font entry \<longleftrightarrow>
     Name entry = Name font \<and> Path entry = Path font \<and>
     (case r of
        (output, None) \<Rightarrow> PreviewRender entry = truncated output 11
      | (output, Some err) \<Rightarrow> PreviewRender entry = ''Error rendering: '' @ Error err)"

text \<open>
  The test of the walk on one directory entry, and the entry that the loop over
  \<^verbatim>\<open>fontPaths\<close> makes for one path.
\<close>

definition isFontFile :: "visit \<Rightarrow> bool" where
  "isFontFile v \<longleftrightarrow> \<not> v_isDir v \<and> strings_HasSuffix (strings_ToLower (v_name v)) ''.flf''"

definition fontOfPath :: "string \<Rightarrow> fontMetadata" where
  "fontOfPath p =
     \<lparr>Name = strings_TrimSuffix (filepath_Base p) (filepath_Ext (filepath_Base p)),
      Path = p, PreviewRender = []\<rparr>"

subsection \<open>Concrete inputs\<close>

text \<open>
  A stand-in for figlet that rejects the flag \<^verbatim>\<open>-w\<close> and the font \<^verbatim>\<open>broken.flf\<close>, and
  prints its last argument otherwise. The state of the world counts the runs.
\<close>

definition narrowFiglet :: "nat runner" where
  "narrowFiglet argv w =
     (if ''-w'' \<in> set argv \<or> ''/fonts/broken.flf'' \<in> set argv
      then (([], Some (ExternalError ''exit status 1'')), Suc w)
      else ((last argv, None), Suc w))"

text \<open>
  A stand-in for figlet that behaves alike but prints a banner of thirteen lines. The
  sixth line is empty; the tenth is a no-break space and the eleventh a space.
\<close>

definition bannerLines :: "string list" where
  "bannerLines =
     [''#  #'', ''#  #'', ''####'', ''#  #'', ''#  #'', [], ''  #'', ''  #'', ''  #'',
      [CHR 0xC2, CHR 0xA0], '' '', ''----'', ''----'']"

definition bannerFiglet :: "nat runner" where
  "bannerFiglet argv w =
     (if ''-w'' \<in> set argv \<or> ''/fonts/broken.flf'' \<in> set argv
      then (([], Some (ExternalError ''exit status 1'')), Suc w)
      else ((strings_Join bannerLines [newline], None), Suc w))"

text \<open>Two lines: the letter a, and a no-break space.\<close>

definition a_nbsp :: string where
  "a_nbsp = [CHR ''a'', CHR 0x0A, CHR 0xC2, CHR 0xA0]"

definition freshSystem :: "nat system" where
  "freshSystem = \<lparr>world = 0, invocations = []\<rparr>"

text \<open>A sorting function that meets what is known of \<^verbatim>\<open>sort.Slice\<close>: insertion by name.\<close>

definition sortByName :: "fontMetadata list \<Rightarrow> fontMetadata list" where
  "sortByName = sort_key Name"

text \<open>A font directory with two fonts and a text file, as the walk reports it.\<close>

definition exampleWalk :: "visit list" where
  "exampleWalk =
     [\<lparr>v_path = ''/usr/share/figlet'', v_name = ''figlet'', v_isDir = True, v_err = None\<rparr>,
      \<lparr>v_path = ''/usr/share/figlet/alpha.flf'', v_name = ''alpha.flf'', v_isDir = False,
        v_err = None\<rparr>,
      \<lparr>v_path = ''/usr/share/figlet/Zeta.FLF'', v_name = ''Zeta.FLF'', v_isDir = False,
        v_err = None\<rparr>,
      \<lparr>v_path = ''/usr/share/figlet/notafont.txt'', v_name = ''notafont.txt'', v_isDir = False,
        v_err = None\<rparr>]"

text \<open>A model waiting for its previews, with three fonts of which one cannot be rendered.\<close>

definition previewModel :: "(unit, unit, unit, unit) model" where
  "previewModel =
     \<lparr>state = stateLoadingPreviews, textInput = (), fontList = (), figletViewport = (),
      spinner = (),
      fonts = [\<lparr>Name = ''standard'', Path = ''/fonts/standard.flf'', PreviewRender = []\<rparr>,
               \<lparr>Name = ''broken'', Path = ''/fonts/broken.flf'', PreviewRender = []\<rparr>,
               \<lparr>Name = ''slant'', Path = ''/fonts/slant.flf'', PreviewRender = []\<rparr>],
      fullFigletOutput = [], inputText = ''hi'', selectedFontMeta = zeroFont,
      termWidth = 80, termHeight = 24, errorMessage = [], statusMessage = [],
      figletCmdPath = ''figlet''\<rparr>"

text \<open>
  Plain widgets: a text input is the text typed, a list the items it shows, a viewport
  its content and a spinner a frame number.
\<close>

definition plainBubbles :: "(string, fontMetadata list, string, nat) bubbles" where
  "plainBubbles =
     \<lparr>textinput_Value = (\<lambda>ti. ti),
      textinput_SetValue = (\<lambda>v ti. v),
      textinput_Focus = (\<lambda>ti. ti),
      textinput_Blur = (\<lambda>ti. ti),
      textinput_set_Placeholder = (\<lambda>p ti. ti),
      textinput_set_Width = (\<lambda>w ti. ti),
      textinput_Prompt_Width = (\<lambda>ti. 2),
      textinput_Update = (\<lambda>k ti. if Type k = KeyRunes then ti @ Runes k else ti),
      list_New = (\<lambda>items w h. items),
      list_Items_nil = (\<lambda>fl. fl = []),
      list_SetSize = (\<lambda>w h fl. fl),
      list_SelectedItem = (\<lambda>fl. case fl of [] \<Rightarrow> None | f # fs \<Rightarrow> Some f),
      list_Update = (\<lambda>k fl. fl),
      viewport_New = (\<lambda>w h. []),
      viewport_SetContent = (\<lambda>c vp. c),
      viewport_GotoTop = (\<lambda>vp. vp),
      viewport_set_Width = (\<lambda>w vp. vp),
      viewport_set_Height = (\<lambda>h vp. vp),
      viewport_Update = (\<lambda>k vp. vp),
      spinner_Update = Suc,
      headerHeight = 2,
      footerHeight = (\<lambda>st sp. 1),
      successStyle_Render = (\<lambda>s. s)\<rparr>"

text \<open>The user is typing a text; the fonts have been found.\<close>

definition typingModel :: "(string, fontMetadata list, string, nat) model" where
  "typingModel =
     \<lparr>state = stateInputText, textInput = ''  hello  '', fontList = [], figletViewport = [],
      spinner = 0,
      fonts = [\<lparr>Name = ''standard'', Path = ''/fonts/standard.flf'', PreviewRender = []\<rparr>],
      fullFigletOutput = [], inputText = [], selectedFontMeta = zeroFont,
      termWidth = 80, termHeight = 24, errorMessage = [], statusMessage = [],
      figletCmdPath = ''figlet''\<rparr>"

text \<open>Previews made for an earlier text, arriving late.\<close>

definition latePreviews :: "fontMetadata list" where
  "latePreviews =
     [\<lparr>Name = ''standard'', Path = ''/fonts/standard.flf'', PreviewRender = ''old''\<rparr>,
      \<lparr>Name = ''slant'', Path = ''/fonts/slant.flf'', PreviewRender = ''old''\<rparr>]"

text \<open>The model after a file was saved, and the model after an error.\<close>

definition savedModel :: "(string, fontMetadata list, string, nat) model" where
  "savedModel =
     fst (Update plainBubbles (typingModel\<lparr>state := stateSaveFileNameInput\<rparr>)
            (fileSavedMsg ''out.txt''))"

definition errorModel :: "(string, fontMetadata list, string, nat) model" where
  "errorModel = fst (Update plainBubbles typingModel (errorMsg NoFontDir))"

definition key_x :: Key where
  "key_x = \<lparr>Type = KeyRunes, Runes = ''x'', Alt = False, Paste = False\<rparr>"

definition key_enter :: Key where
  "key_enter = \<lparr>Type = KeyEnter, Runes = [], Alt = False, Paste = False\<rparr>"

definition key_ctrl_c :: Key where
  "key_ctrl_c = \<lparr>Type = KeyCtrlC, Runes = [], Alt = False, Paste = False\<rparr>"

section \<open>Properties\<close>

subsection \<open>White space, splitting and joining lines\<close>

lemmas TrimSpace_eval =
  byte_def RuneSelf_def RuneError_def asciiSpace_def unicode_IsSpace_def utf8_first_def
  utf8_RuneStart_def utf8_DecodeRuneInString_def utf8_DecodeLastRuneInString_def
  lastRuneStart.simps indexFunc.simps lastIndexFunc.simps
  strings_TrimLeftFunc_def strings_TrimRightFunc_def strings_TrimFunc_def
  trimSpaceStop.simps strings_TrimSpace.simps Let_def

lemma TrimSpace_Nil: "strings_TrimSpace [] = []"
  by (simp add: TrimSpace_eval)

text \<open>
  \<^verbatim>\<open>strings.TrimSpace\<close> leaves nothing of a string exactly when the string is white space
  only. The proof follows the two loops of \<open>strings_TrimSpace\<close> and, from the first byte
  that is not ASCII, the forward and backward decoding of \<open>strings_TrimFunc\<close>.
\<close>

lemma Decode_pos: "s \<noteq> [] \<Longrightarrow> 0 < snd (utf8_DecodeRuneInString s)"
  by (cases s) (simp_all add: utf8_DecodeRuneInString_def Let_def split: option.splits prod.splits)

lemma utf8_first_size:
  "utf8_first b = Some (sz, lo, hi) \<Longrightarrow> 2 \<le> sz \<and> sz \<le> 4 \<and> 0x80 \<le> lo \<and> hi \<le> 0xBF"
  by (auto simp: utf8_first_def split: if_splits)

lemma Decode_le: "snd (utf8_DecodeRuneInString s) \<le> length s"
proof (cases s)
  case Nil
  then show ?thesis by (simp add: utf8_DecodeRuneInString_def)
next
  case (Cons c0 cs)
  show ?thesis
  proof (cases "utf8_first (byte c0)")
    case None
    with Cons show ?thesis by (simp add: utf8_DecodeRuneInString_def Let_def)
  next
    case (Some x)
    obtain sz lo hi where x: "x = (sz, lo, hi)" by (cases x) auto
    with Some have "2 \<le> sz \<and> sz \<le> 4" by (auto dest: utf8_first_size)
    then have "sz = 2 \<or> sz = 3 \<or> sz = 4" by arith
    with Cons Some x show ?thesis
      by (auto simp: utf8_DecodeRuneInString_def Let_def Suc_le_eq)
  qed
qed

lemma Decode_ascii: "byte c < RuneSelf \<Longrightarrow> utf8_DecodeRuneInString (c # cs) = (byte c, 1)"
  by (simp add: utf8_DecodeRuneInString_def)

lemma runes_Nil: "runes [] = []"
  by (simp add: runes.simps)

lemma runes_ascii: "byte c < RuneSelf \<Longrightarrow> runes (c # cs) = byte c # runes cs"
  by (subst runes.simps) (simp add: Decode_ascii)

lemma asciiSpace_IsSpace: "b < RuneSelf \<Longrightarrow> asciiSpace b \<longleftrightarrow> unicode_IsSpace b"
  by (auto simp: asciiSpace_def unicode_IsSpace_def RuneSelf_def)

lemma not_IsSpace_RuneError: "\<not> unicode_IsSpace RuneError"
  by (simp add: unicode_IsSpace_def RuneError_def)

lemma indexFunc_spec:
  "i \<le> length s \<Longrightarrow>
     (indexFunc s f False i = - 1 \<longleftrightarrow> list_all f (runes (drop i s)))
     \<and> (indexFunc s f False i \<noteq> - 1 \<longrightarrow>
          int i \<le> indexFunc s f False i \<and> indexFunc s f False i < int (length s)
          \<and> \<not> f (fst (utf8_DecodeRuneInString (drop (nat (indexFunc s f False i)) s))))"
proof (induction s f "False" i rule: indexFunc.induct)
  case (1 s f i)
  show ?case
  proof (cases "i < length s")
    case False
    with 1(2) have "drop i s = []" by simp
    with False show ?thesis by (subst indexFunc.simps, subst (2) indexFunc.simps, subst (3) indexFunc.simps) (simp add: runes_Nil)
  next
    case True
    obtain r wid where d: "utf8_DecodeRuneInString (drop i s) = (r, wid)" by (metis prod.exhaust)
    from True have ne: "drop i s \<noteq> []" by simp
    have wpos: "0 < wid" using Decode_pos [OF ne] d by simp
    have wle: "wid \<le> length s - i" using Decode_le [of "drop i s"] d by simp
    have rn: "runes (drop i s) = r # runes (drop (i + wid) s)"
      using ne d by (subst runes.simps) (simp add: add.commute)
    show ?thesis
    proof (cases "f r")
      case False
      then have "indexFunc s f False i = int i"
        using True d by (subst indexFunc.simps) simp
      with False True d rn show ?thesis by simp
    next
      case fr: True
      then have eq: "indexFunc s f False i = indexFunc s f False (i + wid)"
        using True d by (subst indexFunc.simps) simp
      have le: "i + wid \<le> length s" using wle True by simp
      from 1(1) [OF True d [symmetric] _ le] fr
      have IH: "(indexFunc s f False (i + wid) = - 1 \<longleftrightarrow> list_all f (runes (drop (i + wid) s)))
     \<and> (indexFunc s f False (i + wid) \<noteq> - 1 \<longrightarrow>
          int (i + wid) \<le> indexFunc s f False (i + wid) \<and> indexFunc s f False (i + wid) < int (length s)
          \<and> \<not> f (fst (utf8_DecodeRuneInString (drop (nat (indexFunc s f False (i + wid))) s))))"
        by simp
      then show ?thesis unfolding eq rn using fr by auto
    qed
  qed
qed


lemma Decode_take:
  assumes i: "1 \<le> i"
  shows "fst (utf8_DecodeRuneInString (take i s)) = fst (utf8_DecodeRuneInString s)
       \<or> fst (utf8_DecodeRuneInString (take i s)) = RuneError"
proof (cases s)
  case Nil
  then show ?thesis by simp
next
  case (Cons c0 cs)
  from i obtain j where j: "i = Suc j" by (cases i) auto
  have t: "take i (c0 # cs) = c0 # take j cs" using j by simp
  show ?thesis
  proof (cases "byte c0 < RuneSelf")
    case True
    then show ?thesis unfolding Cons t by (simp add: Decode_ascii)
  next
    case False
    show ?thesis
    proof (cases "utf8_first (byte c0)")
      case None
      with False show ?thesis unfolding Cons t
        by (simp add: utf8_DecodeRuneInString_def Let_def)
    next
      case (Some x)
      obtain sz lo hi where x: "x = (sz, lo, hi)" by (cases x) auto
      with Some have "2 \<le> sz \<and> sz \<le> 4" by (auto dest: utf8_first_size)
      then have sz: "sz = 2 \<or> sz = 3 \<or> sz = 4" by arith
      show ?thesis
      proof (cases "length (c0 # take j cs) < sz")
        case True
        with False Some x have "utf8_DecodeRuneInString (c0 # take j cs) = (RuneError, 1)"
          by (simp add: utf8_DecodeRuneInString_def Let_def)
        then show ?thesis unfolding Cons t by simp
      next
        case nb: False
        then have le: "sz \<le> i" "sz \<le> length s" using j Cons by simp_all
        have n1: "(c0 # take j cs) ! 1 = (c0 # cs) ! 1" using le sz j Cons by auto
        have n2: "2 < sz \<Longrightarrow> (c0 # take j cs) ! 2 = (c0 # cs) ! 2"
          using le sz j Cons by (auto simp: nth_Cons')
        have n3: "3 < sz \<Longrightarrow> (c0 # take j cs) ! 3 = (c0 # cs) ! 3"
          using le sz j Cons by (auto simp: nth_Cons')
        have l: "\<not> length (c0 # take j cs) < sz" "\<not> length (c0 # cs) < sz"
          using nb le Cons by simp_all
        have "utf8_DecodeRuneInString (c0 # take j cs) = utf8_DecodeRuneInString (c0 # cs)"
          using sz
        proof (elim disjE)
          assume "sz = 2"
          with False Some x l n1 show ?thesis
            by (auto simp: utf8_DecodeRuneInString_def Let_def min_def)
        next
          assume "sz = 3"
          with False Some x l n1 n2 show ?thesis
            by (auto simp: utf8_DecodeRuneInString_def Let_def min_def)
        next
          assume "sz = 4"
          with False Some x l n1 n2 n3 show ?thesis
            by (auto simp: utf8_DecodeRuneInString_def Let_def min_def)
        qed
        then show ?thesis unfolding Cons t by simp
      qed
    qed
  qed
qed


lemma lastRuneStart_le: "lastRuneStart t a l \<le> a"
proof (induction t a l rule: lastRuneStart.induct)
  case (1 t a l)
  then show ?case by (subst lastRuneStart.simps) auto
qed

lemma DecodeLast_cases:
  assumes s: "s \<noteq> []" and d: "utf8_DecodeLastRuneInString s = (r, wid)"
  shows "0 < wid \<and> wid \<le> length s
       \<and> (wid = length s \<longrightarrow> r = RuneError \<or> utf8_DecodeRuneInString s = (r, wid))"
proof (cases "byte (s ! nat (int (length s) - 1)) < RuneSelf")
  case True
  with s d have r: "r = byte (s ! nat (int (length s) - 1))" and w: "wid = 1"
    by (auto simp: utf8_DecodeLastRuneInString_def Let_def)
  have "wid = length s \<longrightarrow> utf8_DecodeRuneInString s = (r, wid)"
  proof
    assume "wid = length s"
    with w obtain c where c: "s = [c]" by (cases s) auto
    with r True show "utf8_DecodeRuneInString s = (r, wid)"
      using w by (simp add: Decode_ascii)
  qed
  with w s show ?thesis by (cases s) auto
next
  case False
  define n where "n = int (length s)"
  define lim where "lim = (if n - 4 < 0 then 0 else n - 4)"
  define start0 where "start0 = lastRuneStart s (n - 2) lim"
  define start where "start = (if start0 < 0 then 0 else start0)"
  obtain r' w' where dd: "utf8_DecodeRuneInString (drop (nat start) s) = (r', w')"
    by (metis prod.exhaust)
  have n: "0 < n" using s by (simp add: n_def)
  have st: "0 \<le> start" "start < n"
    using lastRuneStart_le [of s "n - 2" lim] n by (auto simp: start_def start0_def)
  have res: "(r, wid) = (if start + int w' \<noteq> n then (RuneError, 1) else (r', w'))"
    using d False s dd
    by (simp add: utf8_DecodeLastRuneInString_def Let_def n_def lim_def start0_def start_def
          split: if_splits)
  show ?thesis
  proof (cases "start + int w' \<noteq> n")
    case True
    with res have "r = RuneError" "wid = 1" by simp_all
    with s show ?thesis by (cases s) auto
  next
    case eq: False
    with res have rw: "r = r'" "wid = w'" by simp_all
    from eq st have w: "0 < wid" "wid \<le> length s" unfolding rw n_def by auto
    have "wid = length s \<longrightarrow> utf8_DecodeRuneInString s = (r, wid)"
    proof
      assume "wid = length s"
      with eq rw have "start = 0" by (simp add: n_def)
      with dd rw show "utf8_DecodeRuneInString s = (r, wid)" by simp
    qed
    with w show ?thesis by simp
  qed
qed


lemma lastIndexFunc_found:
  "\<not> f RuneError \<Longrightarrow> s \<noteq> [] \<Longrightarrow> \<not> f (fst (utf8_DecodeRuneInString s)) \<Longrightarrow>
     0 \<le> lastIndexFunc s f False \<and> lastIndexFunc s f False < int (length s)"
proof (induction s f "False" rule: lastIndexFunc.induct)
  case (1 s f)
  obtain r wid where d: "utf8_DecodeLastRuneInString s = (r, wid)" by (metis prod.exhaust)
  note c = DecodeLast_cases [OF "1.prems"(2) d]
  define i where "i = length s - wid"
  have len: "0 < length s" using "1.prems"(2) by simp
  show ?case
  proof (cases "f r")
    case False
    then have "lastIndexFunc s f False = int i"
      using len d by (subst lastIndexFunc.simps) (simp add: i_def Let_def)
    with c show ?thesis by (auto simp: i_def)
  next
    case True
    then have eq: "lastIndexFunc s f False = lastIndexFunc (take i s) f False"
      using len d by (subst lastIndexFunc.simps) (simp add: i_def Let_def)
    have ne: "r \<noteq> RuneError" using True "1.prems"(1) by auto
    have "wid \<noteq> length s"
    proof
      assume "wid = length s"
      with c ne have "utf8_DecodeRuneInString s = (r, wid)" by simp
      with True "1.prems"(3) show False by simp
    qed
    with c have i: "1 \<le> i" "i < length s" by (auto simp: i_def)
    then have t: "take i s \<noteq> []" using len by auto
    have "\<not> f (fst (utf8_DecodeRuneInString (take i s)))"
      using Decode_take [OF i(1), of s] "1.prems"(1,3) by auto
    from "1.hyps" [OF len d [symmetric] i_def _ "1.prems"(1) t this] True
    have "0 \<le> lastIndexFunc (take i s) f False
        \<and> lastIndexFunc (take i s) f False < int (length (take i s))"
      by simp
    with i show ?thesis unfolding eq by simp
  qed
qed

lemma lastIndexFunc_Nil: "lastIndexFunc [] f truth = - 1"
  by (simp add: lastIndexFunc.simps)

lemma TrimRightFunc_Nil: "strings_TrimRightFunc [] f = []"
  by (simp add: strings_TrimRightFunc_def lastIndexFunc_Nil)

lemma TrimRightFunc_nonempty:
  assumes "\<not> f RuneError" "s \<noteq> []" "\<not> f (fst (utf8_DecodeRuneInString s))"
  shows "strings_TrimRightFunc s f \<noteq> []"
proof -
  define i where "i = lastIndexFunc s f False"
  from lastIndexFunc_found [OF assms] have i: "0 \<le> i" "i < int (length s)" by (simp_all add: i_def)
  then have d: "drop (nat i) s \<noteq> []" by simp
  obtain r wid where w: "utf8_DecodeRuneInString (drop (nat i) s) = (r, wid)" by (metis prod.exhaust)
  with Decode_pos [OF d] have "0 < wid" by simp
  with i assms(2) w show ?thesis
    by (auto simp: strings_TrimRightFunc_def i_def [symmetric] Let_def)
qed

lemma TrimFunc_Nil_iff:
  assumes "\<not> f RuneError"
  shows "strings_TrimFunc s f = [] \<longleftrightarrow> list_all f (runes s)"
proof (cases "indexFunc s f False 0 = - 1")
  case True
  then have "strings_TrimLeftFunc s f = []" by (simp add: strings_TrimLeftFunc_def)
  moreover from True have "list_all f (runes s)" using indexFunc_spec [of 0 s f] by simp
  ultimately show ?thesis by (simp add: strings_TrimFunc_def TrimRightFunc_Nil)
next
  case False
  define j where "j = indexFunc s f False 0"
  from False indexFunc_spec [of 0 s f] have j: "0 \<le> j" "j < int (length s)"
    "\<not> f (fst (utf8_DecodeRuneInString (drop (nat j) s)))" and na: "\<not> list_all f (runes s)"
    by (simp_all add: j_def)
  have l: "strings_TrimLeftFunc s f = drop (nat j) s"
    using False by (simp add: strings_TrimLeftFunc_def j_def Let_def)
  have "drop (nat j) s \<noteq> []" using j by simp
  from TrimRightFunc_nonempty [OF assms this j(3)] na show ?thesis
    by (simp add: strings_TrimFunc_def l)
qed

lemma trimSpaceStop_nonempty:
  "xs \<noteq> [] \<Longrightarrow> byte (last xs) < RuneSelf \<Longrightarrow> \<not> asciiSpace (byte (last xs)) \<Longrightarrow>
     trimSpaceStop xs \<noteq> []"
proof (induction xs)
  case Nil
  then show ?case by simp
next
  case (Cons x rest)
  show ?case
  proof (cases "byte x \<ge> RuneSelf")
    case True
    have h: "rev (x # rest) = last (x # rest) # rev (butlast (x # rest))"
      by (metis append_butlast_last_id list.distinct(1) rev_append
            rev_singleton_conv append_Cons append_Nil)
    have "\<not> unicode_IsSpace (fst (utf8_DecodeRuneInString (rev (x # rest))))"
      unfolding h using Cons.prems by (simp add: Decode_ascii asciiSpace_IsSpace)
    then have "strings_TrimRightFunc (rev (x # rest)) unicode_IsSpace \<noteq> []"
      by (intro TrimRightFunc_nonempty not_IsSpace_RuneError) simp_all
    with True show ?thesis by (simp add: trimSpaceStop.simps)
  next
    case False
    show ?thesis
    proof (cases "asciiSpace (byte x)")
      case ns: False
      with False show ?thesis by (simp add: trimSpaceStop.simps)
    next
      case sp: True
      with Cons.prems have r: "rest \<noteq> []" by auto
      with Cons.prems have "byte (last rest) < RuneSelf" "\<not> asciiSpace (byte (last rest))" by simp_all
      from Cons.IH [OF r this] False sp show ?thesis by (simp add: trimSpaceStop.simps)
    qed
  qed
qed

lemma TrimSpace_Nil_iff: "strings_TrimSpace s = [] \<longleftrightarrow> whiteSpaceOnly s"
proof (induction s)
  case Nil
  show ?case by (simp add: strings_TrimSpace.simps trimSpaceStop.simps whiteSpaceOnly_def runes_Nil)
next
  case (Cons c cs)
  show ?case
  proof (cases "byte c \<ge> RuneSelf")
    case True
    then show ?thesis
      by (simp add: strings_TrimSpace.simps whiteSpaceOnly_def
            TrimFunc_Nil_iff [of unicode_IsSpace, OF not_IsSpace_RuneError])
  next
    case False
    then have a: "byte c < RuneSelf" by simp
    show ?thesis
    proof (cases "asciiSpace (byte c)")
      case True
      with a Cons show ?thesis
        by (simp add: strings_TrimSpace.simps whiteSpaceOnly_def runes_ascii
              asciiSpace_IsSpace [symmetric])
    next
      case ns: False
      have "trimSpaceStop (rev (c # cs)) \<noteq> []"
        using a ns by (intro trimSpaceStop_nonempty) simp_all
      with a ns show ?thesis
        by (simp add: strings_TrimSpace.simps whiteSpaceOnly_def runes_ascii
              asciiSpace_IsSpace [symmetric])
    qed
  qed
qed

lemma blank_whiteSpaceOnly: "blank = whiteSpaceOnly"
  by (rule ext) (simp add: blank_def TrimSpace_Nil_iff)

lemma trimTrailing_eq: "trimTrailing ls = rev (dropWhile blank (rev ls))"
proof (induction ls rule: trimTrailing.induct)
  case (1 ls)
  show ?case
  proof (cases "length ls > 0 \<and> strings_TrimSpace (last ls) = []")
    case True
    then obtain ys y where ls: "ls = ys @ [y]" by (cases ls rule: rev_cases) auto
    with True have yb: "blank y" by (simp add: blank_def)
    have "trimTrailing ls = trimTrailing (butlast ls)"
      using True by (subst trimTrailing.simps) simp
    also have "\<dots> = rev (dropWhile blank (rev (butlast ls)))"
      using 1 True by simp
    finally show ?thesis using ls yb by simp
  next
    case False
    then have "trimTrailing ls = ls" by (subst trimTrailing.simps) auto
    moreover have "rev (dropWhile blank (rev ls)) = ls"
    proof (cases ls rule: rev_cases)
      case Nil then show ?thesis by simp
    next
      case (snoc ys y)
      with False have "\<not> blank y" by (simp add: blank_def)
      with snoc show ?thesis by simp
    qed
    ultimately show ?thesis by simp
  qed
qed

lemma Split_nonempty: "strings_Split s c \<noteq> []"
proof (induction s)
  case Nil show ?case by simp
next
  case (Cons a s) then show ?case by (cases "strings_Split s c") simp_all
qed

lemma Split_Cons:
  "strings_Split (a # s) c =
     (if a = c then [] # strings_Split s c
      else (a # hd (strings_Split s c)) # tl (strings_Split s c))"
  using Split_nonempty [of s c] by (cases "strings_Split s c") simp_all

lemma Split_no_sep: "l \<in> set (strings_Split s c) \<Longrightarrow> c \<notin> set l"
proof (induction s arbitrary: l)
  case Nil then show ?case by simp
next
  case (Cons a s)
  obtain x xs where e: "strings_Split s c = x # xs"
    using Split_nonempty [of s c] by (cases "strings_Split s c") simp_all
  show ?case
  proof (cases "a = c")
    case True
    with Cons.prems have "l = [] \<or> l \<in> set (strings_Split s c)" by simp
    with Cons.IH show ?thesis by auto
  next
    case False
    with Cons.prems e have "l = a # x \<or> l \<in> set xs" by simp
    moreover have "c \<notin> set x" using Cons.IH [of x] e by simp
    moreover have "l \<in> set xs \<Longrightarrow> c \<notin> set l" using Cons.IH [of l] e by simp
    ultimately show ?thesis using False by auto
  qed
qed

lemma Join_Split: "strings_Join (strings_Split s c) [c] = s"
proof (induction s)
  case Nil show ?case by simp
next
  case (Cons a s)
  obtain x xs where e: "strings_Split s c = x # xs"
    using Split_nonempty [of s c] by (cases "strings_Split s c") simp_all
  show ?case
  proof (cases "a = c")
    case True
    with Cons e show ?thesis by (simp del: strings_Split.simps add: Split_Cons)
  next
    case False
    with Cons e show ?thesis by (cases xs) (simp_all del: strings_Split.simps add: Split_Cons)
  qed
qed

lemma Split_nosep: "c \<notin> set l \<Longrightarrow> strings_Split l c = [l]"
  by (induction l) auto

lemma Split_append: 
  "c \<notin> set l \<Longrightarrow> strings_Split (l @ c # s) c = l # strings_Split s c"
  by (induction l) auto

lemma Split_Join: "ls \<noteq> [] \<Longrightarrow> \<forall>l\<in>set ls. c \<notin> set l \<Longrightarrow> strings_Split (strings_Join ls [c]) c = ls"
proof (induction ls)
  case Nil then show ?case by simp
next
  case (Cons l ls)
  show ?case
  proof (cases ls)
    case Nil with Cons.prems show ?thesis by (simp add: Split_nosep)
  next
    case (Cons y ys)
    have a: "c \<notin> set l" using Cons.prems by simp
    have "strings_Join (l # ls) [c] = l @ c # strings_Join ls [c]"
      using Cons by simp
    then have "strings_Split (strings_Join (l # ls) [c]) c = l # strings_Split (strings_Join ls [c]) c"
      using Split_append [OF a] by simp
    moreover have "strings_Split (strings_Join ls [c]) c = ls"
      using Cons.IH Cons.prems Cons by simp
    ultimately show ?thesis by simp
  qed
qed


lemma truncateString_nonneg:
  assumes "0 \<le> n"
  shows "truncateString s n =
    Some (strings_Join (trimTrailing (take (nat n) (strings_Split s newline))) [newline])"
proof (cases "int (length (strings_Split s newline)) > n")
  case True
  with assms show ?thesis by (simp add: truncateString_def Let_def slice_to_def)
next
  case False
  then have "take (nat n) (strings_Split s newline) = strings_Split s newline" by simp
  with False show ?thesis by (simp add: truncateString_def Let_def)
qed

lemma truncateString_neg: "n < 0 \<Longrightarrow> truncateString s n = None"
  by (simp add: truncateString_def Let_def slice_to_def)

lemma kept_last: "rev (dropWhile P (rev xs)) \<noteq> [] \<Longrightarrow> \<not> P (last (rev (dropWhile P (rev xs))))"
  by (metis dropWhile_eq_Nil_conv hd_dropWhile last_rev rev_is_Nil_conv)

lemma kept_Nil_iff: "rev (dropWhile P (rev xs)) = [] \<longleftrightarrow> (\<forall>x\<in>set xs. P x)"
  by (simp add: dropWhile_eq_Nil_conv)

lemma kept_subset: "set (rev (dropWhile P (rev xs))) \<subseteq> set xs"
  using set_dropWhileD by fastforce

lemma kept_length: "length (rev (dropWhile P (rev xs))) \<le> length xs"
  using length_dropWhile_le [of P "rev xs"] by simp


subsection \<open>truncateString\<close>

text \<open>
  C5: \<open>maxLines\<close> is a number of lines, 11 in the program. For every string and every
  \<open>maxLines\<close> from 0 upwards, \<open>truncateString\<close> returns a string and does not panic;
  that string is empty or has at most \<open>maxLines\<close> lines; when some line among the first
  \<open>maxLines\<close> lines of the input is not blank, the last line of the result is not blank,
  and when all of them are blank the result is empty; and the result is the first
  \<open>maxLines\<close> lines of the input, less the blank lines at the end of these, joined again.
  A line is blank when it is empty or white space only (\<open>whiteSpaceOnly\<close>), which is
  when \<^verbatim>\<open>strings.TrimSpace\<close> leaves nothing of it (\<open>TrimSpace_Nil_iff\<close>). (Below 0, where
  no text has at most \<open>maxLines\<close> lines, the slice expression panics:
  \<open>truncateString_neg\<close>.)
\<close>

theorem truncateString_bounded:
  assumes n: "0 \<le> n"
  shows "\<exists>t. truncateString s n = Some t
     \<and> (t = [] \<or> length (strings_Split t newline) \<le> nat n)
     \<and> ((\<exists>l\<in>set (take (nat n) (strings_Split s newline)). \<not> whiteSpaceOnly l)
          \<longrightarrow> \<not> whiteSpaceOnly (last (strings_Split t newline)))
     \<and> ((\<forall>l\<in>set (take (nat n) (strings_Split s newline)). whiteSpaceOnly l)
          \<longrightarrow> t = [])
     \<and> t = truncated s (nat n)"
proof -
  define L where "L = take (nat n) (strings_Split s newline)"
  define K where "K = rev (dropWhile whiteSpaceOnly (rev L))"
  define t where "t = strings_Join K [newline]"
  have t: "truncateString s n = Some t"
    using truncateString_nonneg [OF n, of s]
    by (simp add: t_def K_def L_def trimTrailing_eq blank_whiteSpaceOnly)
  have lenK: "length K \<le> nat n"
    using kept_length [of whiteSpaceOnly L] by (simp add: K_def L_def)
  have nosep: "\<forall>l\<in>set K. newline \<notin> set l"
  proof
    fix l assume "l \<in> set K"
    then have "l \<in> set L" using kept_subset [of whiteSpaceOnly L] by (auto simp: K_def)
    then have "l \<in> set (strings_Split s newline)" by (auto simp: L_def dest: in_set_takeD)
    then show "newline \<notin> set l" by (rule Split_no_sep)
  qed
  have split: "K \<noteq> [] \<Longrightarrow> strings_Split t newline = K"
    unfolding t_def using nosep by (simp add: Split_Join)
  have c1: "t = [] \<or> length (strings_Split t newline) \<le> nat n"
  proof (cases "K = []")
    case True then show ?thesis by (simp add: t_def)
  next
    case False with split lenK show ?thesis by simp
  qed
  have c2: "(\<exists>l\<in>set L. \<not> whiteSpaceOnly l) \<longrightarrow> \<not> whiteSpaceOnly (last (strings_Split t newline))"
  proof
    assume "\<exists>l\<in>set L. \<not> whiteSpaceOnly l"
    then have "\<not> (\<forall>x\<in>set L. whiteSpaceOnly x)" by simp
    then have ne: "K \<noteq> []" using kept_Nil_iff [of whiteSpaceOnly L] by (simp add: K_def)
    then have "\<not> whiteSpaceOnly (last K)" unfolding K_def by (rule kept_last)
    with split [OF ne] show "\<not> whiteSpaceOnly (last (strings_Split t newline))" by simp
  qed
  have c3: "(\<forall>l\<in>set L. whiteSpaceOnly l) \<longrightarrow> t = []"
  proof
    assume "\<forall>l\<in>set L. whiteSpaceOnly l"
    then have "K = []" using kept_Nil_iff [of whiteSpaceOnly L] by (simp add: K_def)
    then show "t = []" by (simp add: t_def)
  qed
  have c4: "t = truncated s (nat n)"
    by (simp add: t_def K_def L_def truncated_def)
  from t c1 c2 c3 c4 show ?thesis unfolding L_def by blast
qed

lemma truncated_a_nbsp: "truncated a_nbsp 5 = ''a''"
  by (simp add: truncated_def a_nbsp_def newline_def TrimSpace_Nil_iff [symmetric] TrimSpace_eval)

theorem truncateString_bounded_witness:
  "truncateString a_nbsp 5 = Some ''a''"
proof -
  have n: "(0::int) \<le> 5" by simp
  from truncateString_bounded [OF n, of a_nbsp] obtain t where
    "truncateString a_nbsp 5 = Some t" and "t = truncated a_nbsp (nat 5)"
    by blast
  then show ?thesis by (simp add: truncated_a_nbsp)
qed

text \<open>
  C6: truncating a truncated string with the same \<open>maxLines\<close> changes nothing. For a
  negative \<open>maxLines\<close> both sides are the panic.
\<close>

theorem truncateString_idempotent:
  "Option.bind (truncateString s n) (\<lambda>t. truncateString t n) = truncateString s n"
proof (cases "0 \<le> n")
  case False
  then show ?thesis by (simp add: truncateString_neg)
next
  case True
  define L where "L = take (nat n) (strings_Split s newline)"
  define K where "K = rev (dropWhile blank (rev L))"
  define t where "t = strings_Join K [newline]"
  have t: "truncateString s n = Some t"
    using truncateString_nonneg [OF True, of s] by (simp add: t_def K_def L_def trimTrailing_eq)
  have t2: "truncateString t n = Some (strings_Join (rev (dropWhile blank (rev (take (nat n) (strings_Split t newline))))) [newline])"
    using truncateString_nonneg [OF True, of t] by (simp add: trimTrailing_eq)
  have "rev (dropWhile blank (rev (take (nat n) (strings_Split t newline)))) = K"
  proof (cases "K = []")
    case True
    then have "t = []" by (simp add: t_def)
    then have "\<forall>x\<in>set (take (nat n) (strings_Split t newline)). blank x"
      by (auto simp: blank_def TrimSpace_Nil dest!: in_set_takeD)
    then show ?thesis using True kept_Nil_iff [of blank "take (nat n) (strings_Split t newline)"] by simp
  next
    case False
    have lenK: "length K \<le> nat n"
      using kept_length [of blank L] by (simp add: K_def L_def)
    have nosep: "\<forall>l\<in>set K. newline \<notin> set l"
    proof
      fix l assume "l \<in> set K"
      then have "l \<in> set L" using kept_subset [of blank L] by (auto simp: K_def)
      then have "l \<in> set (strings_Split s newline)" by (auto simp: L_def dest: in_set_takeD)
      then show "newline \<notin> set l" by (rule Split_no_sep)
    qed
    have split: "strings_Split t newline = K"
      unfolding t_def using False nosep by (rule Split_Join)
    have nb: "\<not> blank (last K)" using False unfolding K_def by (rule kept_last)
    obtain ys y where K: "K = ys @ [y]" using False by (cases K rule: rev_cases) auto
    with nb have "rev (dropWhile blank (rev K)) = K" by simp
    with split lenK show ?thesis by simp
  qed
  with t t2 show ?thesis by (simp add: t_def)
qed


lemma truncateString_a_nbsp: "truncateString a_nbsp 5 = Some ''a''"
proof -
  have "truncateString a_nbsp 5 = Some (truncated a_nbsp 5)"
    using truncateString_nonneg [of 5 a_nbsp]
    by (simp add: trimTrailing_eq blank_whiteSpaceOnly truncated_def)
  then show ?thesis by (simp only: truncated_a_nbsp)
qed

theorem truncateString_idempotent_witness:
  "Option.bind (truncateString a_nbsp 5) (\<lambda>t. truncateString t 5) = Some ''a''"
  using truncateString_idempotent [of a_nbsp 5] by (simp only: truncateString_a_nbsp)

subsection \<open>runFiglet\<close>

text \<open>
  C4: \<open>runFiglet\<close> first runs the tool with \<^verbatim>\<open>-w width\<close>. When that run gives no
  error, it is the only run and its output is returned. When it gives an error, the tool
  is run once more, without \<^verbatim>\<open>-w\<close>, and nothing else is run; the output of that second
  run is returned if it gives no error, and an error is returned only if both runs gave
  one. So a tool that fails on every run that names a width, and on no other, still
  yields its output.
\<close>

theorem runFiglet_retry:
  assumes first: "run (cmdPath # [''-f'', fontPath, ''-w'', fmt_d (sint width), text]) (world s)
                    = ((out1, err1), w1)"
      and second: "run (cmdPath # [''-f'', fontPath, text]) w1 = ((out2, err2), w2)"
      and result: "runFiglet run cmdPath fontPath text width s = ((output, err), s')"
  shows "invocations s' = invocations s @
            (if err1 = None
             then [cmdPath # [''-f'', fontPath, ''-w'', fmt_d (sint width), text]]
             else [cmdPath # [''-f'', fontPath, ''-w'', fmt_d (sint width), text],
                   cmdPath # [''-f'', fontPath, text]])
       \<and> (err = None \<longleftrightarrow> err1 = None \<or> err2 = None)
       \<and> (err1 = None \<longrightarrow> output = out1 \<and> world s' = w1)
       \<and> (err1 \<noteq> None \<longrightarrow> world s' = w2)
       \<and> (err1 \<noteq> None \<and> err2 = None \<longrightarrow> output = out2)
       \<and> (err1 \<noteq> None \<and> err2 \<noteq> None \<longrightarrow>
            (\<exists>e. err2 = Some e \<and> err = Some (FigletFailed fontPath text width e)))"
proof (cases err1)
  case None
  with first result show ?thesis
    by (auto simp: runFiglet_def exec_Output_def)
next
  case (Some e1)
  show ?thesis
  proof (cases err2)
    case None
    with Some first second result show ?thesis
      by (auto simp: runFiglet_def exec_Output_def)
  next
    case (Some e2)
    with \<open>err1 = Some e1\<close> first second result show ?thesis
      by (auto simp: runFiglet_def exec_Output_def)
  qed
qed

lemma fmt60: "fmt_d 60 = ''60''"
  by (simp add: fmt_d_def fmt_nat.simps)

theorem runFiglet_retry_witness:
  "invocations (snd (runFiglet narrowFiglet ''figlet'' ''/fonts/standard.flf'' ''hi'' 60 freshSystem))
     = [[''figlet'', ''-f'', ''/fonts/standard.flf'', ''-w'', ''60'', ''hi''],
        [''figlet'', ''-f'', ''/fonts/standard.flf'', ''hi'']]
   \<and> fst (runFiglet narrowFiglet ''figlet'' ''/fonts/standard.flf'' ''hi'' 60 freshSystem)
        = (''hi'', None)"
proof -
  let ?r = "runFiglet narrowFiglet ''figlet'' ''/fonts/standard.flf'' ''hi'' 60 freshSystem"
  have a: "narrowFiglet (''figlet'' # [''-f'', ''/fonts/standard.flf'', ''-w'', fmt_d (sint (60::64 word)), ''hi'']) (world freshSystem)
            = (([], Some (ExternalError ''exit status 1'')), 1)"
    by (simp add: narrowFiglet_def freshSystem_def)
  have b: "narrowFiglet (''figlet'' # [''-f'', ''/fonts/standard.flf'', ''hi'']) 1 = ((''hi'', None), 2)"
    by (simp add: narrowFiglet_def)
  have c: "?r = ((fst (fst ?r), snd (fst ?r)), snd ?r)" by simp
  from runFiglet_retry [OF a b c] show ?thesis
    by (simp add: fmt60 freshSystem_def prod_eq_iff)
qed

subsection \<open>generatePreviewsCmd\<close>

lemma truncateString_previewLines:
  "truncateString outp previewLines = Some (truncated outp 11)"
  using truncateString_nonneg [of previewLines outp]
  by (simp add: previewLines_def trimTrailing_eq truncated_def blank_whiteSpaceOnly)

text \<open>
  What truncation keeps is a prefix of the text: the preview of a rendering that gave
  no error is the beginning of what the tool printed, with nothing put before it.
\<close>

lemma Join_append_prefix: "\<exists>rest. strings_Join (ks @ rs) sep = strings_Join ks sep @ rest"
proof (induction ks)
  case Nil show ?case by simp
next
  case (Cons k ks)
  show ?case
  proof (cases ks)
    case Nil
    then show ?thesis by (cases rs) simp_all
  next
    case (Cons k' ks')
    with Cons.IH show ?thesis by auto
  qed
qed

lemma truncated_prefix: "\<exists>rest. s = truncated s n @ rest"
proof -
  define ls where "ls = strings_Split s newline"
  have "take n ls = rev (dropWhile whiteSpaceOnly (rev (take n ls)))
                      @ rev (takeWhile whiteSpaceOnly (rev (take n ls)))"
    by (metis rev_append rev_rev_ident takeWhile_dropWhile_id)
  then have "ls = rev (dropWhile whiteSpaceOnly (rev (take n ls)))
      @ (rev (takeWhile whiteSpaceOnly (rev (take n ls))) @ drop n ls)"
    by (metis append_assoc append_take_drop_id)
  then obtain rs where "ls = rev (dropWhile whiteSpaceOnly (rev (take n ls))) @ rs" ..
  then have "\<exists>rest. strings_Join ls [newline] = truncated s n @ rest"
    using Join_append_prefix [of "rev (dropWhile whiteSpaceOnly (rev (take n ls)))" rs "[newline]"]
    by (simp add: truncated_def ls_def)
  then show ?thesis by (simp add: ls_def Join_Split)
qed

lemma previewsLoop_result:
  assumes "length out = i + length fs"
  shows "\<exists>res. previewsLoop run p t w i fs out s = (Some res, snd (renderings run p t w fs s))
           \<and> length res = length out
           \<and> take i res = take i out
           \<and> (\<forall>j<length fs.
                 previewEntry (fst (renderings run p t w fs s) ! j) (fs ! j) (res ! (i + j)))"
  using assms
proof (induction fs arbitrary: i out s)
  case Nil
  then show ?case by simp
next
  case (Cons font rest)
  obtain outp err s1 where rf: "runFiglet run p (Path font) t w s = ((outp, err), s1)"
    by (metis prod.exhaust)
  obtain rs s2 where rn: "renderings run p t w rest s1 = (rs, s2)"
    by (metis prod.exhaust)
  have rall: "renderings run p t w (font # rest) s = ((outp, err) # rs, s2)"
    using rf rn by simp
  obtain pv where pv: "previewEntry (outp, err) font (font\<lparr>PreviewRender := pv\<rparr>)"
    and step: "previewsLoop run p t w i (font # rest) out s
                = previewsLoop run p t w (Suc i) rest (out[i := font\<lparr>PreviewRender := pv\<rparr>]) s1"
  proof (cases err)
    case None
    define x where "x = truncated outp 11"
    have x: "truncateString outp previewLines = Some x"
      unfolding x_def by (rule truncateString_previewLines)
    have "previewEntry (outp, err) font (font\<lparr>PreviewRender := x\<rparr>)"
      using None by (simp add: previewEntry_def x_def)
    moreover have "previewsLoop run p t w i (font # rest) out s
                = previewsLoop run p t w (Suc i) rest (out[i := font\<lparr>PreviewRender := x\<rparr>]) s1"
      using None x rf by simp
    ultimately show ?thesis by (rule that)
  next
    case (Some e)
    have "previewEntry (outp, err) font (font\<lparr>PreviewRender := ''Error rendering: '' @ Error e\<rparr>)"
      using Some by (simp add: previewEntry_def)
    moreover have "previewsLoop run p t w i (font # rest) out s
                = previewsLoop run p t w (Suc i) rest
                    (out[i := font\<lparr>PreviewRender := ''Error rendering: '' @ Error e\<rparr>]) s1"
      using Some rf by simp
    ultimately show ?thesis by (rule that)
  qed
  define out' where "out' = out[i := font\<lparr>PreviewRender := pv\<rparr>]"
  have len': "length out' = Suc i + length rest"
    using Cons.prems by (simp add: out'_def)
  have "\<exists>res. previewsLoop run p t w (Suc i) rest out' s1 = (Some res, s2)
           \<and> length res = length out'
           \<and> take (Suc i) res = take (Suc i) out'
           \<and> (\<forall>j<length rest. previewEntry (rs ! j) (rest ! j) (res ! (Suc i + j)))"
    using Cons.IH [OF len', of s1] rn by simp
  then obtain res where
    r1: "previewsLoop run p t w (Suc i) rest out' s1 = (Some res, s2)"
    and r2: "length res = length out'"
    and r3: "take (Suc i) res = take (Suc i) out'"
    and r4: "\<forall>j<length rest. previewEntry (rs ! j) (rest ! j) (res ! (Suc i + j))"
    by (elim exE conjE)
  have ilt: "i < length out" using Cons.prems by simp
  have "res ! i = take (Suc i) res ! i" by simp
  also have "\<dots> = out' ! i" unfolding r3 by simp
  also have "\<dots> = font\<lparr>PreviewRender := pv\<rparr>" using ilt by (simp add: out'_def)
  finally have resi: "res ! i = font\<lparr>PreviewRender := pv\<rparr>" .
  have t3: "take i res = take i out"
  proof -
    have "take i res = take i (take (Suc i) res)" by (simp add: min_def)
    also have "\<dots> = take i (take (Suc i) out')" unfolding r3 ..
    also have "\<dots> = take i out'" by (simp add: min_def)
    also have "\<dots> = take i out" by (simp add: out'_def)
    finally show ?thesis .
  qed
  have all: "\<forall>j<length (font # rest).
               previewEntry (((outp, err) # rs) ! j) ((font # rest) ! j) (res ! (i + j))"
  proof (intro allI impI)
    fix j assume j: "j < length (font # rest)"
    show "previewEntry (((outp, err) # rs) ! j) ((font # rest) ! j) (res ! (i + j))"
    proof (cases j)
      case 0
      with resi pv show ?thesis by simp
    next
      case (Suc j')
      with j have jl: "j' < length rest" by simp
      with r4 have "previewEntry (rs ! j') (rest ! j') (res ! (Suc i + j'))" by blast
      with Suc show ?thesis by simp
    qed
  qed
  have "previewsLoop run p t w i (font # rest) out s = (Some res, s2)"
    using step r1 by (simp add: out'_def)
  moreover have "length res = length out" using r2 by (simp add: out'_def)
  ultimately show ?case using t3 all rall by auto
qed


text \<open>
  C3: for every list of fonts (and every tool, text and terminal width) the command
  returns a \<open>previewsGeneratedMsg\<close>, never an error message and never a panic. Its list
  is as long as the list of fonts, and its entry for each font is that font with a
  preview (\<open>previewEntry\<close>): when the rendering of that font gave no error, the first 11
  lines of the output less the blank lines at the end of these (\<open>truncated\<close>), and when
  it gave an error, the text \<^verbatim>\<open>Error rendering: \<close> followed by the error. Every font is
  rendered, whatever happened to the fonts before it. (Only the placeholder gets that
  prefix from the program: the other previews begin as the output of the tool begins,
  \<open>truncated_prefix\<close>.)
\<close>

theorem generatePreviewsCmd_always_succeeds:
  "\<exists>fontsWithPreviews.
     generatePreviewsCmd run m s =
       (Some (previewsGeneratedMsg fontsWithPreviews),
        snd (renderings run (figletCmdPath m) (inputText m) (previewRenderWidth (termWidth m))
               (fonts m) s))
     \<and> length fontsWithPreviews = length (fonts m)
     \<and> (\<forall>i<length (fonts m).
           previewEntry
             (fst (renderings run (figletCmdPath m) (inputText m)
                     (previewRenderWidth (termWidth m)) (fonts m) s) ! i)
             (fonts m ! i) (fontsWithPreviews ! i))"
proof -
  have len: "length (replicate (length (fonts m)) zeroFont) = 0 + length (fonts m)" by simp
  have "\<exists>res. previewsLoop run (figletCmdPath m) (inputText m) (previewRenderWidth (termWidth m)) 0
          (fonts m) (replicate (length (fonts m)) zeroFont) s
        = (Some res, snd (renderings run (figletCmdPath m) (inputText m)
                            (previewRenderWidth (termWidth m)) (fonts m) s))
      \<and> length res = length (fonts m)
      \<and> (\<forall>j<length (fonts m).
            previewEntry
             (fst (renderings run (figletCmdPath m) (inputText m)
                     (previewRenderWidth (termWidth m)) (fonts m) s) ! j)
             (fonts m ! j) (res ! j))"
    using previewsLoop_result [OF len, of run "figletCmdPath m" "inputText m"
         "previewRenderWidth (termWidth m)" s] by simp
  then obtain res where
    a: "previewsLoop run (figletCmdPath m) (inputText m) (previewRenderWidth (termWidth m)) 0
          (fonts m) (replicate (length (fonts m)) zeroFont) s
        = (Some res, snd (renderings run (figletCmdPath m) (inputText m)
                            (previewRenderWidth (termWidth m)) (fonts m) s))"
    and b: "length res = length (fonts m)"
    and c: "\<forall>j<length (fonts m).
            previewEntry
             (fst (renderings run (figletCmdPath m) (inputText m)
                     (previewRenderWidth (termWidth m)) (fonts m) s) ! j)
             (fonts m ! j) (res ! j)"
    by (elim exE conjE)
  have "generatePreviewsCmd run m s =
       (Some (previewsGeneratedMsg res),
        snd (renderings run (figletCmdPath m) (inputText m) (previewRenderWidth (termWidth m))
               (fonts m) s))"
    using a by (simp add: generatePreviewsCmd_def)
  with b c show ?thesis by blast
qed

lemma previewModel_width: "previewRenderWidth (termWidth previewModel) = 60"
  by (simp add: previewRenderWidth_def previewModel_def)

lemma previewModel_renderings:
  "fst (renderings bannerFiglet ''figlet'' ''hi'' 60 (fonts previewModel) freshSystem) =
     [(strings_Join bannerLines [newline], None),
      ([], Some (FigletFailed ''/fonts/broken.flf'' ''hi'' 60 (ExternalError ''exit status 1''))),
      (strings_Join bannerLines [newline], None)]"
  by (simp add: previewModel_def runFiglet_def exec_Output_def bannerFiglet_def freshSystem_def
        fmt60)

lemma truncated_banner:
  "truncated (strings_Join bannerLines [newline]) 11 =
     strings_Join [''#  #'', ''#  #'', ''####'', ''#  #'', ''#  #'', [], ''  #'', ''  #'', ''  #'']
       [newline]"
proof -
  have "strings_Split (strings_Join bannerLines [newline]) newline = bannerLines"
    by (rule Split_Join) (simp_all add: bannerLines_def newline_def)
  then have "truncated (strings_Join bannerLines [newline]) 11 =
      strings_Join (rev (dropWhile whiteSpaceOnly (rev (take 11 bannerLines)))) [newline]"
    by (simp only: truncated_def)
  also have "take 11 bannerLines =
      [''#  #'', ''#  #'', ''####'', ''#  #'', ''#  #'', [], ''  #'', ''  #'', ''  #'',
       [CHR 0xC2, CHR 0xA0], '' '']"
    by (simp add: bannerLines_def)
  also have "rev (dropWhile whiteSpaceOnly
      (rev [''#  #'', ''#  #'', ''####'', ''#  #'', ''#  #'', [], ''  #'', ''  #'', ''  #'',
            [CHR 0xC2, CHR 0xA0], '' ''])) =
      [''#  #'', ''#  #'', ''####'', ''#  #'', ''#  #'', [], ''  #'', ''  #'', ''  #'']"
    by (simp add: TrimSpace_Nil_iff [symmetric] TrimSpace_eval)
  finally show ?thesis .
qed

theorem generatePreviewsCmd_always_succeeds_witness:
  "\<exists>fontsWithPreviews s'.
     generatePreviewsCmd bannerFiglet previewModel freshSystem =
       (Some (previewsGeneratedMsg fontsWithPreviews), s')
     \<and> length fontsWithPreviews = 3
     \<and> PreviewRender (fontsWithPreviews ! 0) =
          strings_Join [''#  #'', ''#  #'', ''####'', ''#  #'', ''#  #'', [], ''  #'', ''  #'', ''  #'']
            [newline]
     \<and> PreviewRender (fontsWithPreviews ! 1) =
          ''Error rendering: figlet failed (path: /fonts/broken.flf, text: hi, width: 60): exit status 1''
     \<and> PreviewRender (fontsWithPreviews ! 2) =
          strings_Join [''#  #'', ''#  #'', ''####'', ''#  #'', ''#  #'', [], ''  #'', ''  #'', ''  #'']
            [newline]"
proof -
  have fm: "figletCmdPath previewModel = ''figlet''" "inputText previewModel = ''hi''"
    "length (fonts previewModel) = 3"
    by (simp_all add: previewModel_def)
  from generatePreviewsCmd_always_succeeds [of bannerFiglet previewModel freshSystem]
  obtain fwp s' where
    a: "generatePreviewsCmd bannerFiglet previewModel freshSystem
          = (Some (previewsGeneratedMsg fwp), s')"
    and b: "length fwp = 3"
    and c: "\<forall>i<3. previewEntry
               (fst (renderings bannerFiglet ''figlet'' ''hi'' 60 (fonts previewModel) freshSystem) ! i)
               (fonts previewModel ! i) (fwp ! i)"
    unfolding fm previewModel_width by blast
  from c have "previewEntry (strings_Join bannerLines [newline], None)
      (fonts previewModel ! 0) (fwp ! 0)"
    unfolding previewModel_renderings by (auto dest: spec [of _ 0])
  then have p0: "PreviewRender (fwp ! 0) = truncated (strings_Join bannerLines [newline]) 11"
    by (simp add: previewEntry_def)
  from c have "previewEntry
      ([], Some (FigletFailed ''/fonts/broken.flf'' ''hi'' 60 (ExternalError ''exit status 1'')))
      (fonts previewModel ! 1) (fwp ! 1)"
    unfolding previewModel_renderings by (auto dest: spec [of _ 1])
  then have p1: "PreviewRender (fwp ! 1) =
          ''Error rendering: figlet failed (path: /fonts/broken.flf, text: hi, width: 60): exit status 1''"
    by (simp add: previewEntry_def fmt60)
  from c have "previewEntry (strings_Join bannerLines [newline], None)
      (fonts previewModel ! 2) (fwp ! 2)"
    unfolding previewModel_renderings by (auto dest: spec [of _ 2])
  then have p2: "PreviewRender (fwp ! 2) = truncated (strings_Join bannerLines [newline]) 11"
    by (simp add: previewEntry_def)
  from a b p0 p1 p2 show ?thesis unfolding truncated_banner by blast
qed

subsection \<open>findFigletFonts\<close>

lemma toLower_char_code:
  "of_char (toLower_char c) =
     (if 65 \<le> (of_char c :: nat) \<and> (of_char c :: nat) \<le> 90 then of_char c + 32 else (of_char c :: nat))"
  by (simp add: toLower_char_def less_eq_char_def)

lemma toLower_dot: "toLower_char c = CHR ''.'' \<Longrightarrow> c = CHR ''.''"
proof -
  assume a: "toLower_char c = CHR ''.''"
  then have "(of_char (toLower_char c) :: nat) = 46" by simp
  then have "(of_char c :: nat) = 46" unfolding toLower_char_code by (simp split: if_splits)
  then have "(of_char c :: nat) = of_char (CHR ''.'')" by simp
  then show ?thesis by (simp only: of_char_eq_iff)
qed

lemma toLower_letter:
  assumes "toLower_char c = CHR ''f'' \<or> toLower_char c = CHR ''l''"
  shows "c \<noteq> CHR ''.'' \<and> \<not> isPathSeparator c"
proof -
  have "c \<noteq> CHR ''.''" using assms by (auto simp: toLower_char_def less_eq_char_def)
  moreover have "c \<noteq> CHR ''/''" using assms by (auto simp: toLower_char_def less_eq_char_def)
  ultimately show ?thesis by (simp add: isPathSeparator_def)
qed

lemma ToLower_flf_shape:
  assumes "strings_ToLower ext = ''.flf''"
  shows "\<exists>a b c. ext = [CHR ''.'', a, b, c]
           \<and> (c \<noteq> CHR ''.'' \<and> \<not> isPathSeparator c)
           \<and> (b \<noteq> CHR ''.'' \<and> \<not> isPathSeparator b)
           \<and> (a \<noteq> CHR ''.'' \<and> \<not> isPathSeparator a)"
proof -
  from assms obtain d a b c where e: "ext = [d, a, b, c]"
    and d: "toLower_char d = CHR ''.''" and a: "toLower_char a = CHR ''f''"
    and b: "toLower_char b = CHR ''l''" and c: "toLower_char c = CHR ''f''"
    by (auto simp: strings_ToLower_def map_eq_Cons_conv)
  from d have "d = CHR ''.''" by (rule toLower_dot)
  with e toLower_letter [of a] toLower_letter [of b] toLower_letter [of c] a b c
  show ?thesis by simp
qed

lemma Ext_flf:
  assumes "strings_ToLower ext = ''.flf''"
  shows "filepath_Ext (stem @ ext) = ext"
proof -
  from ToLower_flf_shape [OF assms] obtain a b c where
    "ext = [CHR ''.'', a, b, c]" "c \<noteq> CHR ''.'' \<and> \<not> isPathSeparator c"
    "b \<noteq> CHR ''.'' \<and> \<not> isPathSeparator b" "a \<noteq> CHR ''.'' \<and> \<not> isPathSeparator a"
    by blast
  then show ?thesis by (simp add: filepath_Ext_def isPathSeparator_def)
qed

lemma HasSuffix_flf_iff:
  "strings_HasSuffix (strings_ToLower n) ''.flf'' \<longleftrightarrow>
     (\<exists>stem ext. n = stem @ ext \<and> strings_ToLower ext = ''.flf'')"
proof
  assume h: "strings_HasSuffix (strings_ToLower n) ''.flf''"
  then have len: "4 \<le> length n" and d: "drop (length n - 4) (strings_ToLower n) = ''.flf''"
    by (simp_all add: strings_HasSuffix_def strings_ToLower_def eval_nat_numeral)
  have "n = take (length n - 4) n @ drop (length n - 4) n" by simp
  moreover have "strings_ToLower (drop (length n - 4) n) = ''.flf''"
    using d by (simp add: strings_ToLower_def drop_map)
  ultimately show "\<exists>stem ext. n = stem @ ext \<and> strings_ToLower ext = ''.flf''" by blast
next
  assume "\<exists>stem ext. n = stem @ ext \<and> strings_ToLower ext = ''.flf''"
  then obtain stem ext where n: "n = stem @ ext" and e: "strings_ToLower ext = ''.flf''" by blast
  from e have "length ext = 4" by (auto simp: strings_ToLower_def map_eq_Cons_conv)
  with n e show "strings_HasSuffix (strings_ToLower n) ''.flf''"
    by (simp add: strings_HasSuffix_def strings_ToLower_def eval_nat_numeral)
qed

lemma TrimSuffix_Ext_flf:
  assumes "strings_ToLower ext = ''.flf''"
  shows "strings_TrimSuffix (stem @ ext) (filepath_Ext (stem @ ext)) = stem"
  by (simp add: Ext_flf [OF assms] strings_TrimSuffix_def strings_HasSuffix_def)


lemma WalkDir_no_errors:
  "\<forall>v\<in>set visits. v_err v = None \<Longrightarrow>
     filepath_WalkDir visits acc = (acc @ map v_path (filter isFontFile visits), None)"
  by (induction visits arbitrary: acc) (simp_all add: walkFn_def isFontFile_def)

lemma fontsOfPaths_map: "fontsOfPaths ps acc = acc @ map fontOfPath ps"
  by (induction ps arbitrary: acc) (simp_all add: fontOfPath_def Let_def)

lemma findFigletFonts_no_errors:
  assumes "fontDir \<noteq> []" and "\<forall>v\<in>set visits. v_err v = None"
  shows "findFigletFonts srt fontDir visits =
           (if filter isFontFile visits = [] then ([], Some (NoFontsFound fontDir))
            else (srt (map fontOfPath (map v_path (filter isFontFile visits))), None))"
  using assms by (simp add: findFigletFonts_def WalkDir_no_errors fontsOfPaths_map)

lemma isFontFile_iff:
  "isFontFile v \<longleftrightarrow>
     \<not> v_isDir v \<and> (\<exists>stem ext. v_name v = stem @ ext \<and> strings_ToLower ext = ''.flf'')"
  by (simp add: isFontFile_def HasSuffix_flf_iff)

lemma fontOfPath_name:
  assumes "filepath_Base p = stem @ ext" and "strings_ToLower ext = ''.flf''"
  shows "Name (fontOfPath p) = stem" and "Path (fontOfPath p) = p"
  using assms by (simp_all add: fontOfPath_def TrimSuffix_Ext_flf)

lemma sort_Slice_sorted:
  assumes "sort_Slice_by_Name srt"
  shows "sorted (map Name (srt xs))" and "mset (srt xs) = mset xs"
proof -
  from assms have a: "sorted_wrt (\<lambda>a b. \<not> Name b < Name a) (srt xs)" and b: "mset (srt xs) = mset xs"
    by (simp_all add: sort_Slice_by_Name_def)
  from a show "sorted (map Name (srt xs))" by (simp add: sorted_map not_less)
  from b show "mset (srt xs) = mset xs" .
qed

lemma sorted_unique:
  fixes xs ys :: "'a::linorder list"
  assumes "sorted xs" "sorted ys" "mset xs = mset ys"
  shows "xs = ys"
proof -
  have "sort ys = xs" using assms by (intro properties_for_sort) simp_all
  moreover have "sort ys = ys" using assms(2) by (rule sorted_sort_id)
  ultimately show ?thesis by simp
qed

lemma sortByName_ok: "sort_Slice_by_Name sortByName"
proof -
  have "sorted_wrt (\<lambda>a b. \<not> Name b < Name a) (sort_key Name xs)" for xs :: "fontMetadata list"
  proof -
    have "sorted (map Name (sort_key Name xs))" by simp
    then show ?thesis by (simp add: sorted_map not_less)
  qed
  then show ?thesis by (simp add: sort_Slice_by_Name_def sortByName_def)
qed


lemma found_names_mset:
  assumes srt: "sort_Slice_by_Name srt" and dir: "fontDir \<noteq> []"
      and ok: "\<forall>v\<in>set visits. v_err v = None"
  shows "mset (fst (findFigletFonts srt fontDir visits)) =
           image_mset (\<lambda>v. fontOfPath (v_path v)) (filter_mset isFontFile (mset visits))"
proof (cases "filter isFontFile visits = []")
  case True
  then have "filter_mset isFontFile (mset visits) = {#}"
    by (metis mset_filter mset_zero_iff)
  with True show ?thesis by (simp add: findFigletFonts_no_errors [OF dir ok])
next
  case False
  have "mset (map fontOfPath (map v_path (filter isFontFile visits))) =
          image_mset (\<lambda>v. fontOfPath (v_path v)) (filter_mset isFontFile (mset visits))"
    by (simp add: image_mset.compositionality comp_def flip: mset_filter mset_map)
  with False show ?thesis
    by (simp add: findFigletFonts_no_errors [OF dir ok] sort_Slice_sorted(2) [OF srt])
qed

lemma found_sorted:
  assumes srt: "sort_Slice_by_Name srt" and dir: "fontDir \<noteq> []"
      and ok: "\<forall>v\<in>set visits. v_err v = None"
  shows "sorted (map Name (fst (findFigletFonts srt fontDir visits)))"
  by (simp add: findFigletFonts_no_errors [OF dir ok] sort_Slice_sorted(1) [OF srt])


text \<open>
  C2: take any walk of the font directory that reports no error and in which every entry
  is named by the last element of its path. Then the paths of the fonts returned are
  exactly the paths of the entries that are not directories and whose name ends in
  \<^verbatim>\<open>.flf\<close> in upper or lower case, each as often as the walk reported it; the name of
  each font is the last element of its path without that ending; the fonts are in
  ascending order of name; their names come in the same order whatever the order in
  which the walk reported the entries; and the error is \<^verbatim>\<open>nil\<close> exactly when the list is
  not empty.
\<close>

theorem findFigletFonts_discovery:
  assumes srt: "sort_Slice_by_Name srt"
      and dir: "fontDir \<noteq> []"
      and ok: "\<forall>v\<in>set visits. v_err v = None"
      and names: "\<forall>v\<in>set visits. v_name v = filepath_Base (v_path v)"
      and res: "findFigletFonts srt fontDir visits = (found, err)"
  shows "mset (map Path found) =
           mset (map v_path (filter (\<lambda>v. \<not> v_isDir v \<and>
                   (\<exists>stem ext. v_name v = stem @ ext \<and> strings_ToLower ext = ''.flf'')) visits))
       \<and> (\<forall>f\<in>set found. \<exists>ext. filepath_Base (Path f) = Name f @ ext
                                 \<and> strings_ToLower ext = ''.flf'')
       \<and> sorted (map Name found)
       \<and> (\<forall>visits'. mset visits' = mset visits \<longrightarrow>
             map Name (fst (findFigletFonts srt fontDir visits')) = map Name found)
       \<and> (err = None \<longleftrightarrow> found \<noteq> [])"
proof -
  have found: "found = fst (findFigletFonts srt fontDir visits)" using res by simp
  have ms: "mset found =
              image_mset (\<lambda>v. fontOfPath (v_path v)) (filter_mset isFontFile (mset visits))"
    unfolding found by (rule found_names_mset [OF srt dir ok])
  have pred: "(\<lambda>v. \<not> v_isDir v \<and>
                   (\<exists>stem ext. v_name v = stem @ ext \<and> strings_ToLower ext = ''.flf''))
              = isFontFile"
    by (rule ext) (simp add: isFontFile_iff)
  have c1: "mset (map Path found) = mset (map v_path (filter isFontFile visits))"
  proof -
    have "mset (map Path found) = image_mset Path (mset found)" by simp
    also have "\<dots> = image_mset (\<lambda>v. Path (fontOfPath (v_path v))) (filter_mset isFontFile (mset visits))"
      unfolding ms by (simp add: image_mset.compositionality comp_def)
    also have "\<dots> = image_mset v_path (filter_mset isFontFile (mset visits))"
      by (simp add: fontOfPath_def)
    also have "\<dots> = mset (map v_path (filter isFontFile visits))" by simp
    finally show ?thesis .
  qed
  have c2: "\<forall>f\<in>set found. \<exists>ext. filepath_Base (Path f) = Name f @ ext
                                 \<and> strings_ToLower ext = ''.flf''"
  proof
    fix f assume "f \<in> set found"
    then have "f \<in># mset found" by simp
    then obtain v where v: "v \<in> set visits" "isFontFile v" and f: "f = fontOfPath (v_path v)"
      unfolding ms by auto
    from v(2) obtain stem ext where n: "v_name v = stem @ ext" and e: "strings_ToLower ext = ''.flf''"
      by (auto simp: isFontFile_iff)
    from names v(1) n have b: "filepath_Base (v_path v) = stem @ ext" by simp
    from fontOfPath_name [OF b e] f b e
    show "\<exists>ext. filepath_Base (Path f) = Name f @ ext \<and> strings_ToLower ext = ''.flf''"
      by auto
  qed
  have c3: "sorted (map Name found)"
    unfolding found by (rule found_sorted [OF srt dir ok])
  have c4: "\<forall>visits'. mset visits' = mset visits \<longrightarrow>
             map Name (fst (findFigletFonts srt fontDir visits')) = map Name found"
  proof (intro allI impI)
    fix visits' assume p: "mset visits' = mset visits"
    then have "set visits' = set visits" by (rule mset_eq_setD)
    with ok have ok': "\<forall>v\<in>set visits'. v_err v = None" by simp
    have "mset (fst (findFigletFonts srt fontDir visits')) = mset found"
      unfolding ms using found_names_mset [OF srt dir ok'] p by simp
    then have "mset (map Name (fst (findFigletFonts srt fontDir visits'))) = mset (map Name found)"
      by simp
    moreover have "sorted (map Name (fst (findFigletFonts srt fontDir visits')))"
      by (rule found_sorted [OF srt dir ok'])
    ultimately show "map Name (fst (findFigletFonts srt fontDir visits')) = map Name found"
      using c3 by (intro sorted_unique)
  qed
  have c5: "err = None \<longleftrightarrow> found \<noteq> []"
  proof (cases "filter isFontFile visits = []")
    case True
    with res show ?thesis by (auto simp: findFigletFonts_no_errors [OF dir ok])
  next
    case False
    then have "mset (srt (map fontOfPath (map v_path (filter isFontFile visits)))) \<noteq> {#}"
      by (auto simp: sort_Slice_sorted(2) [OF srt] filter_empty_conv)
    then have "srt (map fontOfPath (map v_path (filter isFontFile visits))) \<noteq> []" by auto
    with False res show ?thesis by (auto simp: findFigletFonts_no_errors [OF dir ok])
  qed
  from c1 c2 c3 c4 c5 show ?thesis unfolding pred by blast
qed

lemma ToLower_examples:
  "strings_ToLower ''figlet'' = ''figlet''"
  "strings_ToLower ''alpha.flf'' = ''alpha.flf''"
  "strings_ToLower ''Zeta.FLF'' = ''zeta.flf''"
  "strings_ToLower ''notafont.txt'' = ''notafont.txt''"
  by code_simp+

lemma exampleWalk_result:
  "findFigletFonts sortByName ''/usr/share/figlet'' exampleWalk =
     ([\<lparr>Name = ''Zeta'', Path = ''/usr/share/figlet/Zeta.FLF'', PreviewRender = []\<rparr>,
       \<lparr>Name = ''alpha'', Path = ''/usr/share/figlet/alpha.flf'', PreviewRender = []\<rparr>], None)"
  by (simp add: findFigletFonts_def exampleWalk_def walkFn_def strings_HasSuffix_def
        ToLower_examples filepath_Base_def filepath_Ext_def
        isPathSeparator_def strings_TrimSuffix_def sortByName_def Let_def)

lemma exampleWalk_names: "\<forall>v\<in>set exampleWalk. v_name v = filepath_Base (v_path v)"
  by (simp add: exampleWalk_def filepath_Base_def isPathSeparator_def)

theorem findFigletFonts_discovery_witness:
  "map Name (fst (findFigletFonts sortByName ''/usr/share/figlet'' exampleWalk)) = [''Zeta'', ''alpha'']
   \<and> sorted (map Name (fst (findFigletFonts sortByName ''/usr/share/figlet'' exampleWalk)))
   \<and> snd (findFigletFonts sortByName ''/usr/share/figlet'' exampleWalk) = None"
proof -
  have dir: "''/usr/share/figlet'' \<noteq> []" by simp
  have ok: "\<forall>v\<in>set exampleWalk. v_err v = None" by (simp add: exampleWalk_def)
  from findFigletFonts_discovery [OF sortByName_ok dir ok exampleWalk_names exampleWalk_result]
  show ?thesis by (simp add: exampleWalk_result)
qed

subsection \<open>Update\<close>

text \<open>
  C1, as the code has it. The case \<^verbatim>\<open>previewsGeneratedMsg\<close> of \<open>Update\<close> does not look at
  the state: in every state, \<^verbatim>\<open>LoadingPreviews\<close> or not, it replaces the fonts of the
  model by the fonts of the message, builds a new list widget from them and sets the
  state to \<^verbatim>\<open>SelectFontWithPreview\<close>, with no command.
\<close>

theorem Update_previewsGenerated_unguarded:
  "Update bub m (previewsGeneratedMsg fontsWithPreviews) =
     (m\<lparr>fonts := fontsWithPreviews,
        fontList := list_New bub fontsWithPreviews (termWidth m - docStyle_GetHorizontalFrameSize)
                      (listHeight bub m),
        state := stateSelectFontWithPreview\<rparr>, CmdBatch [])"
  by (simp add: Let_def listHeight_def)

theorem Update_previewsGenerated_unguarded_witness:
  "Update plainBubbles typingModel (previewsGeneratedMsg latePreviews) =
     (typingModel\<lparr>fonts := latePreviews,
        fontList := list_New plainBubbles latePreviews
                      (termWidth typingModel - docStyle_GetHorizontalFrameSize)
                      (listHeight plainBubbles typingModel),
        state := stateSelectFontWithPreview\<rparr>, CmdBatch [])"
  by (rule Update_previewsGenerated_unguarded)

text \<open>
  C1 as stated fails: while the user is typing a new text (state \<^verbatim>\<open>InputText\<close>), previews
  that arrive late move the model to \<^verbatim>\<open>SelectFontWithPreview\<close> and overwrite its fonts.
\<close>

theorem Update_late_previews_overwrite:
  "state typingModel = stateInputText
   \<and> state (fst (Update plainBubbles typingModel (previewsGeneratedMsg latePreviews)))
        = stateSelectFontWithPreview
   \<and> fonts (fst (Update plainBubbles typingModel (previewsGeneratedMsg latePreviews)))
        = latePreviews
   \<and> fonts typingModel \<noteq> latePreviews"
  by (simp add: typingModel_def latePreviews_def Let_def)

text \<open>
  C9: in every state, and whatever the widgets do, the key ctrl+c makes \<open>Update\<close> return
  the model as it was together with \<^verbatim>\<open>tea.Quit\<close>.
\<close>

theorem Update_ctrl_c_quits:
  "Update bub m (KeyMsg \<lparr>Type = KeyCtrlC, Runes = r, Alt = False, Paste = p\<rparr>) = (m, CmdQuit)"
  by (simp add: updateKey_def key_Matches_def Key_String_def)

theorem Update_ctrl_c_quits_witness:
  "Update plainBubbles typingModel (KeyMsg key_ctrl_c) = (typingModel, CmdQuit)"
  unfolding key_ctrl_c_def by (rule Update_ctrl_c_quits)

lemma Enter_not_ctrl_c: "Type k = KeyEnter \<Longrightarrow> \<not> key_Matches k [''ctrl+c'']"
  by (cases "Alt k") (simp_all add: key_Matches_def Key_String_def)

text \<open>
  C10: in the state \<^verbatim>\<open>InputText\<close>, on Enter, the value of the text input is trimmed of
  white space at both ends (\<^verbatim>\<open>strings.TrimSpace\<close>) and stored as \<open>inputText\<close>. When the
  value is empty or white space only, nothing is left of it, the state stays
  \<^verbatim>\<open>InputText\<close> and no command is issued. Otherwise something is left, the state becomes
  \<^verbatim>\<open>LoadingPreviews\<close>, and the preview command is issued on a model whose \<open>inputText\<close>
  is the trimmed value.
\<close>

theorem Update_InputText_Enter:
  assumes "state m = stateInputText" and "Type k = KeyEnter"
  shows "(whiteSpaceOnly (textinput_Value bub (textInput m)) \<longrightarrow>
            Update bub m (KeyMsg k) = (m\<lparr>inputText := []\<rparr>, CmdBatch []))
       \<and> (\<not> whiteSpaceOnly (textinput_Value bub (textInput m)) \<longrightarrow>
            strings_TrimSpace (textinput_Value bub (textInput m)) \<noteq> [] \<and>
            Update bub m (KeyMsg k) =
              (m\<lparr>inputText := strings_TrimSpace (textinput_Value bub (textInput m)),
                 state := stateLoadingPreviews,
                 textInput := textinput_Blur bub (textInput m)\<rparr>,
               CmdBatch [CmdSpinnerTick,
                 CmdGeneratePreviews
                   (m\<lparr>inputText := strings_TrimSpace (textinput_Value bub (textInput m)),
                      state := stateLoadingPreviews,
                      textInput := textinput_Blur bub (textInput m)\<rparr>)]))"
  using assms
  by (simp add: updateKey_def Enter_not_ctrl_c Let_def TrimSpace_Nil_iff [symmetric])

lemma TrimSpace_examples:
  "strings_TrimSpace ''  hello  '' = ''hello''"
  "strings_TrimSpace ''   '' = []"
  "strings_TrimSpace [CHR 0xE3, CHR 0x80, CHR 0x80] = []"
  "strings_TrimSpace [CHR 0xC2, CHR 0xA0, CHR ''h'', CHR ''i'', CHR 0xC2, CHR 0xA0] = ''hi''"
  by (simp_all add: TrimSpace_eval)

lemma whiteSpaceOnly_examples:
  "\<not> whiteSpaceOnly ''  hello  ''"
  "whiteSpaceOnly ''   ''"
  "whiteSpaceOnly [CHR 0xE3, CHR 0x80, CHR 0x80]"
  "\<not> whiteSpaceOnly [CHR 0xC2, CHR 0xA0, CHR ''h'', CHR ''i'', CHR 0xC2, CHR 0xA0]"
  by (simp_all add: TrimSpace_Nil_iff [symmetric] TrimSpace_examples)

theorem Update_InputText_Enter_witness:
  "Update plainBubbles typingModel (KeyMsg key_enter) =
     (typingModel\<lparr>inputText := ''hello'', state := stateLoadingPreviews\<rparr>,
      CmdBatch [CmdSpinnerTick,
        CmdGeneratePreviews (typingModel\<lparr>inputText := ''hello'', state := stateLoadingPreviews\<rparr>)])
   \<and> Update plainBubbles (typingModel\<lparr>textInput := ''   ''\<rparr>) (KeyMsg key_enter) =
     (typingModel\<lparr>textInput := ''   ''\<rparr>, CmdBatch [])
   \<and> Update plainBubbles (typingModel\<lparr>textInput := [CHR 0xE3, CHR 0x80, CHR 0x80]\<rparr>)
         (KeyMsg key_enter) =
     (typingModel\<lparr>textInput := [CHR 0xE3, CHR 0x80, CHR 0x80]\<rparr>, CmdBatch [])
   \<and> inputText (fst (Update plainBubbles
         (typingModel\<lparr>textInput := [CHR 0xC2, CHR 0xA0, CHR ''h'', CHR ''i'', CHR 0xC2, CHR 0xA0]\<rparr>)
         (KeyMsg key_enter))) = ''hi''"
proof -
  have s: "state (typingModel\<lparr>textInput := v\<rparr>) = stateInputText" for v
    by (simp add: typingModel_def)
  have s1: "state typingModel = stateInputText" by (simp add: typingModel_def)
  have k: "Type key_enter = KeyEnter" by (simp add: key_enter_def)
  have v: "textinput_Value plainBubbles (textInput (typingModel\<lparr>textInput := x\<rparr>)) = x" for x
    by (simp add: plainBubbles_def)
  have v1: "textinput_Value plainBubbles (textInput typingModel) = ''  hello  ''"
    by (simp add: plainBubbles_def typingModel_def)
  have b: "textinput_Blur plainBubbles x = x" for x
    by (simp add: plainBubbles_def)
  have i: "inputText typingModel = []" by (simp add: typingModel_def)
  from Update_InputText_Enter [OF s1 k, where bub = plainBubbles]
    Update_InputText_Enter [OF s k, where bub = plainBubbles and v1 = "''   ''"]
    Update_InputText_Enter [OF s k, where bub = plainBubbles
      and v1 = "[CHR 0xE3, CHR 0x80, CHR 0x80]"]
    Update_InputText_Enter [OF s k, where bub = plainBubbles
      and v1 = "[CHR 0xC2, CHR 0xA0, CHR ''h'', CHR ''i'', CHR 0xC2, CHR 0xA0]"]
  show ?thesis unfolding v v1 b
    using i whiteSpaceOnly_examples by (simp add: typingModel_def TrimSpace_examples)
qed

text \<open>
  C8, as the code has it. A \<^verbatim>\<open>fileSavedMsg\<close> sets the state \<^verbatim>\<open>ShowStatusMessage\<close> and
  asks for a \<^verbatim>\<open>statusTimeoutMsg\<close> after two seconds. That message, or in the state
  \<^verbatim>\<open>ShowStatusMessage\<close> the key Enter or Esc, clears the status message and sets the
  state \<^verbatim>\<open>SelectFontWithPreview\<close>. Every other key but ctrl+c leaves the model as it
  is, with no command.
\<close>

theorem StatusMessage_exits:
  "Update bub m (fileSavedMsg path) =
     (m\<lparr>statusMessage := successStyle_Render bub (''Saved to '' @ path @ ''!''),
        state := stateShowStatusMessage\<rparr>,
      CmdBatch [CmdTick (2 * 1000000000) statusTimeoutMsg])
   \<and> Update bub m statusTimeoutMsg =
       (m\<lparr>statusMessage := [], state := stateSelectFontWithPreview\<rparr>, CmdBatch [])
   \<and> (state m = stateShowStatusMessage \<and> (Key_String k = ''enter'' \<or> Key_String k = ''esc'') \<longrightarrow>
        Update bub m (KeyMsg k) =
          (m\<lparr>statusMessage := [], state := stateSelectFontWithPreview\<rparr>, CmdBatch []))
   \<and> (state m = stateShowStatusMessage \<and> Key_String k \<notin> {''enter'', ''esc'', ''ctrl+c''} \<longrightarrow>
        Update bub m (KeyMsg k) = (m, CmdBatch []))"
  by (auto simp: updateKey_def key_Matches_def time_Second_def)

theorem StatusMessage_exits_witness:
  "Update plainBubbles savedModel statusTimeoutMsg =
     (savedModel\<lparr>statusMessage := [], state := stateSelectFontWithPreview\<rparr>, CmdBatch [])
   \<and> Update plainBubbles savedModel (KeyMsg key_enter) =
     (savedModel\<lparr>statusMessage := [], state := stateSelectFontWithPreview\<rparr>, CmdBatch [])
   \<and> Update plainBubbles savedModel (KeyMsg key_x) = (savedModel, CmdBatch [])"
proof -
  have s: "state savedModel = stateShowStatusMessage" by (simp add: savedModel_def)
  have e: "Key_String key_enter = ''enter''" by (simp add: Key_String_def key_enter_def)
  have x: "Key_String key_x \<notin> {''enter'', ''esc'', ''ctrl+c''}"
    by (simp add: Key_String_def key_x_def)
  from StatusMessage_exits [of plainBubbles savedModel "''out.txt''" key_enter]
       StatusMessage_exits [of plainBubbles savedModel "''out.txt''" key_x] s e x
  show ?thesis by simp
qed

text \<open>
  C8 as stated fails: after a file was saved, the key \<^verbatim>\<open>x\<close> leaves the state
  \<^verbatim>\<open>ShowStatusMessage\<close> and the status message in place.
\<close>

theorem StatusMessage_key_x_stays:
  "state savedModel = stateShowStatusMessage
   \<and> Update plainBubbles savedModel (KeyMsg key_x) = (savedModel, CmdBatch [])
   \<and> statusMessage savedModel = ''Saved to out.txt!''"
  by (simp add: savedModel_def typingModel_def plainBubbles_def key_x_def updateKey_def
        key_Matches_def Key_String_def)

text \<open>
  C7 at the key \<^verbatim>\<open>x\<close>: in the state \<^verbatim>\<open>Error\<close> only q, Esc, Enter and ctrl+c quit. For
  \<^verbatim>\<open>x\<close> the model is returned as it was with an empty batch of commands, although the
  footer of that state reads \<^verbatim>\<open>Press any key to quit.\<close>
\<close>

theorem Error_key_x_does_not_quit:
  "state errorModel = stateError
   \<and> Update plainBubbles errorModel (KeyMsg key_x) = (errorModel, CmdBatch [])"
  by (simp add: errorModel_def typingModel_def plainBubbles_def key_x_def updateKey_def
        key_Matches_def Key_String_def)

end
